theory Spec2Isabelle
  imports Complex_Main "HOL-Library.Word"
begin

section \<open>EcoSphere: the plant/soil simulation of Main.cpp\<close>

text \<open>
  The embedding follows \<^verbatim>\<open>src/Main.cpp\<close> function by function.

  Numbers. A C++ \<^verbatim>\<open>float\<close> is modelled as a \<^typ>\<open>real\<close>: every operation is
  exact, a literal such as \<^verbatim>\<open>0.01f\<close> is the decimal it is written as, and no value is
  infinite or NaN. The program divides by \<^verbatim>\<open>totalOverlap\<close> (after the test of line 140),
  by \<^verbatim>\<open>size*size\<close> (only when the overlap is positive, and then the size is), by
  \<^verbatim>\<open>cellSize\<close> and by \<^verbatim>\<open>maxAge\<close>. A quotient by zero is 0 in HOL and an infinity or a
  NaN in C++, so the model stands for the program where \<open>cellSize\<close> and \<open>maxAge\<close> are not
  zero, as in \<^verbatim>\<open>main\<close> (cell size 1.0) and after the constructor (\<open>maxAge \<ge> 200\<close>).
  \<^verbatim>\<open>rand()\<close> returns an \<^verbatim>\<open>int\<close> that is not negative, for which \<^verbatim>\<open>%\<close> is \<open>mod\<close>.
  A C++ \<^verbatim>\<open>int\<close> is modelled as an unbounded \<^typ>\<open>int\<close>; the indices the program computes
  stay far inside 32 bits. An \<^verbatim>\<open>unsigned char\<close> is an \<^typ>\<open>8 word\<close>.

  Memory. \<^verbatim>\<open>soil[idx]\<close> on a \<^verbatim>\<open>std::vector\<close> does not check its index; reading or
  writing past the end is undefined behaviour. The model makes that a value: every
  access checks the index and a bad one ends the call with \<open>Inl OutOfRange\<close>.
\<close>

subsection \<open>Data\<close>

datatype fault = OutOfRange

text \<open>raylib's \<^verbatim>\<open>Vector2\<close>, \<^verbatim>\<open>Vector3\<close> and \<^verbatim>\<open>Color\<close>; the fields carry a suffix
  because one-letter constants would capture the variables of every later statement.\<close>

record Vector2 =
  x2 :: real
  y2 :: real

record Vector3 =
  x3 :: real
  y3 :: real
  z3 :: real

record Color =
  colR :: "8 word"
  colG :: "8 word"
  colB :: "8 word"
  colA :: "8 word"

record SoilCell =
  cellPosition :: Vector2
  water :: real
  nitrogen :: real
  phosphorus :: real
  potassium :: real

text \<open>\<^verbatim>\<open>struct Plant\<close>; \<open>id\<close> and \<open>size\<close> are HOL constants, so the two fields are
  \<open>id'\<close> and \<open>size'\<close>.\<close>

record Plant =
  id' :: int
  position :: Vector3
  size' :: real
  color :: Color
  growthRate :: real
  health :: real
  age :: real
  maxAge :: real
  alive :: bool
  photosyntheticEfficiency :: real
  baseMaintenance :: real
  maintenancePerSize :: real
  adsorptionEfficiency :: real
  lastNutrientIntake :: real
  lastAreaOccupied :: real

text \<open>\<^verbatim>\<open>std::map<int,std::map<int,float>>\<close> and
  \<^verbatim>\<open>std::map<int,std::vector<std::tuple<int,float,float>>>\<close>.\<close>

type_synonym nutrientUsedMap = "int \<rightharpoonup> (int \<rightharpoonup> real)"
type_synonym cellUsageMap = "int \<rightharpoonup> (int \<times> real \<times> real) list"

subsection \<open>Helpers (lines 11--23)\<close>

definition clampf :: "real \<Rightarrow> real \<Rightarrow> real \<Rightarrow> real" where
  "clampf v a b = max a (min v b)"

definition safeFloorToInt :: "real \<Rightarrow> int" where
  "safeFloorToInt v = \<lfloor>v\<rfloor>"

definition overlapAreaXZ :: "real \<Rightarrow> real \<Rightarrow> real \<Rightarrow> real \<Rightarrow> real \<Rightarrow> real \<Rightarrow> real" where
  "overlapAreaXZ ax az ah bx bz bh =
     (let aMinX = ax - ah; aMaxX = ax + ah;
          aMinZ = az - ah; aMaxZ = az + ah;
          bMinX = bx - bh; bMaxX = bx + bh;
          bMinZ = bz - bh; bMaxZ = bz + bh;
          ix = max 0 (min aMaxX bMaxX - max aMinX bMinX);
          iz = max 0 (min aMaxZ bMaxZ - max aMinZ bMinZ)
      in ix * iz)"

subsection \<open>Constructors (lines 29--34 and 57--70)\<close>

text \<open>The four calls of \<^verbatim>\<open>rand()\<close> are the parameters \<open>r1\<close> .. \<open>r4\<close>.\<close>

definition newSoilCell :: "Vector2 \<Rightarrow> int \<Rightarrow> int \<Rightarrow> int \<Rightarrow> int \<Rightarrow> SoilCell" where
  "newSoilCell pos r1 r2 r3 r4 =
     \<lparr> cellPosition = pos,
       water = 0.5 + real_of_int (r1 mod 50) / 100,
       nitrogen = 0.5 + real_of_int (r2 mod 50) / 100,
       phosphorus = 0.5 + real_of_int (r3 mod 50) / 100,
       potassium = 0.5 + real_of_int (r4 mod 50) / 100 \<rparr>"

definition newPlant :: "int \<Rightarrow> Vector3 \<Rightarrow> real \<Rightarrow> real \<Rightarrow> int \<Rightarrow> Plant" where
  "newPlant i pos s rate r =
     \<lparr> id' = i, position = pos, size' = s,
       color = \<lparr> colR = 50, colG = 150, colB = 50, colA = 255 \<rparr>,
       growthRate = rate, health = 1, age = 0,
       maxAge = 200 + real_of_int (r mod 100),
       alive = True,
       photosyntheticEfficiency = 1, baseMaintenance = 0.2,
       maintenancePerSize = 0.01, adsorptionEfficiency = 0.9,
       lastNutrientIntake = 0, lastAreaOccupied = 0 \<rparr>"

subsection \<open>Soil lookup of a plant (lines 72--98)\<close>

definition getOccupiedSoilIndices :: "Plant \<Rightarrow> int \<Rightarrow> real \<Rightarrow> int list" where
  "getOccupiedSoilIndices p gridSize cellSize =
     (let halfGrid = real_of_int gridSize * 0.5;
          minX = safeFloorToInt ((x3 (position p) - size' p * 0.5 + halfGrid) / cellSize);
          maxX = safeFloorToInt ((x3 (position p) + size' p * 0.5 + halfGrid) / cellSize);
          minZ = safeFloorToInt ((z3 (position p) - size' p * 0.5 + halfGrid) / cellSize);
          maxZ = safeFloorToInt ((z3 (position p) + size' p * 0.5 + halfGrid) / cellSize)
      in concat (map (\<lambda>x. map (\<lambda>z. z * gridSize + x)
                               (filter (\<lambda>z. x \<ge> 0 \<and> x < gridSize \<and> z \<ge> 0 \<and> z < gridSize)
                                       [minZ..maxZ]))
                     [minX..maxX]))"

definition overlapFractionWithCell :: "Plant \<Rightarrow> SoilCell \<Rightarrow> int \<Rightarrow> real \<Rightarrow> real" where
  "overlapFractionWithCell p cell gridSize cellSize =
     (let halfGrid = real_of_int gridSize * 0.5;
          cx = x2 (cellPosition cell) - halfGrid + cellSize * 0.5;
          cz = y2 (cellPosition cell) - halfGrid + cellSize * 0.5;
          plantHalf = size' p * 0.5;
          cellHalf = cellSize * 0.5;
          overlap = overlapAreaXZ (x3 (position p)) (z3 (position p)) plantHalf cx cz cellHalf;
          cellArea = cellSize * cellSize
      in clampf (overlap / cellArea) 0 1)"

definition topY :: "Plant \<Rightarrow> real" where
  "topY p = y3 (position p) + size' p * 0.5"

subsection \<open>Light (lines 100--114)\<close>

text \<open>The loop over \<^verbatim>\<open>allPlants\<close>, with \<open>light\<close> as the accumulator.\<close>

fun lightLoop :: "Plant \<Rightarrow> Plant list \<Rightarrow> real \<Rightarrow> real" where
  "lightLoop p [] light = light"
| "lightLoop p (other # rest) light =
     (if id' other = id' p then lightLoop p rest light
      else let overlap = overlapAreaXZ (x3 (position p)) (z3 (position p)) (size' p * 0.5)
                           (x3 (position other)) (z3 (position other)) (size' other * 0.5)
           in if overlap \<le> 0 then lightLoop p rest light
              else let overlapFrac = overlap / (size' p * size' p)
                   in if topY other > topY p
                      then lightLoop p rest (light * (1 - overlapFrac * 0.5))
                      else lightLoop p rest light)"

definition calculateLight :: "Plant \<Rightarrow> Plant list \<Rightarrow> real" where
  "calculateLight p allPlants = clampf (lightLoop p allPlants 1) 0 1"

subsection \<open>Growth (lines 116--182)\<close>

text \<open>The first loop of \<^verbatim>\<open>grow\<close> (lines 130--139): it reads the soil and collects
  \<open>(overlaps, totalOverlap, nutrientSum, waterSum)\<close>.\<close>

type_synonym sample = "(int \<times> real) list \<times> real \<times> real \<times> real"

fun sampleLoop :: "Plant \<Rightarrow> SoilCell list \<Rightarrow> int \<Rightarrow> real \<Rightarrow> int list \<Rightarrow> sample \<Rightarrow> fault + sample" where
  "sampleLoop p soil gridSize cellSize [] acc = Inr acc"
| "sampleLoop p soil gridSize cellSize (idx # rest) (overlaps, totalOverlap, nutrientSum, waterSum) =
     (if idx < 0 \<or> int (length soil) \<le> idx then Inl OutOfRange
      else let c = soil ! nat idx;
               frac' = overlapFractionWithCell p c gridSize cellSize
           in if frac' > 0
              then let avgNPK = (nitrogen c + phosphorus c + potassium c) / 3
                   in sampleLoop p soil gridSize cellSize rest
                        (overlaps @ [(idx, frac')], totalOverlap + frac',
                         nutrientSum + avgNPK * frac', waterSum + water c * frac')
              else sampleLoop p soil gridSize cellSize rest
                        (overlaps, totalOverlap, nutrientSum, waterSum))"

text \<open>The second loop (lines 156--171): it writes the soil and the usage maps and adds
  up the plant's two per-frame statistics.\<close>

type_synonym depletion = "SoilCell list \<times> nutrientUsedMap \<times> cellUsageMap \<times> real \<times> real"

fun depleteLoop :: "int \<Rightarrow> real \<Rightarrow> real \<Rightarrow> real \<Rightarrow> (int \<times> real) list \<Rightarrow> depletion \<Rightarrow> fault + depletion" where
  "depleteLoop pid demand totalOverlap eff [] st = Inr st"
| "depleteLoop pid demand totalOverlap eff ((idx, frac') # rest) (soil, nutrientUsed, cellUsage, intake, area) =
     (if idx < 0 \<or> int (length soil) \<le> idx then Inl OutOfRange
      else let takeFrac = frac' / totalOverlap;
               amountTaken = demand * takeFrac * eff;
               c = soil ! nat idx;
               c1 = c\<lparr>water := max 0 (water c - amountTaken * 0.001)\<rparr>;
               c2 = c1\<lparr>nitrogen := max 0 (nitrogen c1 - amountTaken * 0.001)\<rparr>;
               c3 = c2\<lparr>phosphorus := max 0 (phosphorus c2 - amountTaken * 0.001)\<rparr>;
               c4 = c3\<lparr>potassium := max 0 (potassium c3 - amountTaken * 0.001)\<rparr>;
               inner = (case nutrientUsed pid of None \<Rightarrow> Map.empty | Some m \<Rightarrow> m);
               old = (case inner idx of None \<Rightarrow> 0 | Some v \<Rightarrow> v);
               used = (case cellUsage idx of None \<Rightarrow> [] | Some l \<Rightarrow> l)
           in depleteLoop pid demand totalOverlap eff rest
                (soil[nat idx := c4],
                 nutrientUsed(pid \<mapsto> inner(idx \<mapsto> old + amountTaken)),
                 cellUsage(idx \<mapsto> used @ [(pid, frac', amountTaken)]),
                 intake + amountTaken, area + frac'))"

text \<open>\<^verbatim>\<open>(unsigned char)v\<close> of a float: the fraction is dropped (towards zero). Outside
  0..255 C++ leaves the conversion undefined; the model wraps modulo 256 there.\<close>

definition toUChar :: "real \<Rightarrow> 8 word" where
  "toUChar v = word_of_int (if v \<ge> 0 then \<lfloor>v\<rfloor> else \<lceil>v\<rceil>)"

text \<open>Lines 142--149: the energy balance of the frame, from the sums of the first loop.\<close>

definition netEnergy :: "Plant \<Rightarrow> real \<Rightarrow> real \<Rightarrow> real \<Rightarrow> real \<Rightarrow> real" where
  "netEnergy p lightFactor totalOverlap nutrientSum waterSum =
     (let nutrientFactor = nutrientSum / totalOverlap;
          waterFactor = waterSum / totalOverlap;
          agePerc = age p / maxAge p;
          production = lightFactor * nutrientFactor * waterFactor *
                       photosyntheticEfficiency p * growthRate p;
          maintenance = baseMaintenance p + maintenancePerSize p * size' p + agePerc * 0.2
      in production - maintenance)"

text \<open>Line 151: \<^verbatim>\<open>delta\<close>.\<close>

definition growthDelta :: "Plant \<Rightarrow> real \<Rightarrow> real" where
  "growthDelta p energy = growthRate p * 0.01 * (if energy > 0 then 1 else 0.2)"

type_synonym world = "Plant \<times> SoilCell list \<times> nutrientUsedMap \<times> cellUsageMap"

definition grow :: "Plant \<Rightarrow> SoilCell list \<Rightarrow> int \<Rightarrow> real \<Rightarrow> real \<Rightarrow>
    nutrientUsedMap \<Rightarrow> cellUsageMap \<Rightarrow> real \<Rightarrow> fault + world" where
  "grow p soil gridSize cellSize lightFactor nutrientUsed cellUsage HEIGHT_SCALE =
     (if \<not> alive p then Inr (p, soil, nutrientUsed, cellUsage)
      else
        let p1 = p\<lparr>lastNutrientIntake := 0, lastAreaOccupied := 0\<rparr>;
            indices = getOccupiedSoilIndices p1 gridSize cellSize
        in case sampleLoop p1 soil gridSize cellSize indices ([], 0, 0, 0) of
             Inl e \<Rightarrow> Inl e
           | Inr (overlaps, totalOverlap, nutrientSum, waterSum) \<Rightarrow>
               if totalOverlap = 0
               then Inr (p1\<lparr>age := age p1 + 0.01\<rparr>, soil, nutrientUsed, cellUsage)
               else
                 let agePerc = age p1 / maxAge p1;
                     energy = netEnergy p1 lightFactor totalOverlap nutrientSum waterSum;
                     delta = growthDelta p1 energy;
                     p2 = p1\<lparr>size' := max 0.2 (size' p1 + delta)\<rparr>;
                     demand = max 0 (delta * 0.5)
                 in case depleteLoop (id' p2) demand totalOverlap (adsorptionEfficiency p2)
                           overlaps (soil, nutrientUsed, cellUsage,
                                     lastNutrientIntake p2, lastAreaOccupied p2) of
                      Inl e \<Rightarrow> Inl e
                    | Inr (soil', nutrientUsed', cellUsage', intake, area) \<Rightarrow>
                        let p3 = p2\<lparr>lastNutrientIntake := intake, lastAreaOccupied := area\<rparr>;
                            p4 = p3\<lparr>health := clampf (health p3 + energy * 0.001 - 0.0005) 0 1\<rparr>;
                            p5 = p4\<lparr>age := age p4 + 0.01\<rparr>;
                            p6 = p5\<lparr>position := (position p5)
                                      \<lparr>y3 := size' p5 * HEIGHT_SCALE / 2 + 0.1\<rparr>\<rparr>;
                            p7 = (if agePerc < 0.6
                                  then p6\<lparr>color := \<lparr> colR = 50, colG = 150, colB = 50, colA = 255 \<rparr>\<rparr>
                                  else p6\<lparr>color := \<lparr> colR = 200, colG = 200, colB = 80,
                                         colA = toUChar (255 * (1 - (agePerc - 0.6) / 0.4)) \<rparr>\<rparr>);
                            p8 = p7\<lparr>alive := (health p7 > 0 \<and> age p7 < maxAge p7)\<rparr>
                        in Inr (p8, soil', nutrientUsed', cellUsage'))"

text \<open>Scenario 5 of the specification updates one plant again and again with a light
  factor held fixed; \<open>growRepeat n\<close> is \<open>n\<close> such calls of \<^verbatim>\<open>grow\<close> in a row.\<close>

fun growRepeat :: "nat \<Rightarrow> Plant \<Rightarrow> SoilCell list \<Rightarrow> int \<Rightarrow> real \<Rightarrow> real \<Rightarrow>
    nutrientUsedMap \<Rightarrow> cellUsageMap \<Rightarrow> real \<Rightarrow> fault + world" where
  "growRepeat 0 p soil gridSize cellSize lightFactor nutrientUsed cellUsage hs =
     Inr (p, soil, nutrientUsed, cellUsage)"
| "growRepeat (Suc n) p soil gridSize cellSize lightFactor nutrientUsed cellUsage hs =
     (case grow p soil gridSize cellSize lightFactor nutrientUsed cellUsage hs of
        Inl e \<Rightarrow> Inl e
      | Inr (p', soil', nutrientUsed', cellUsage') \<Rightarrow>
          growRepeat n p' soil' gridSize cellSize lightFactor nutrientUsed' cellUsage' hs)"

subsection \<open>One frame of \<^verbatim>\<open>main\<close> (lines 230--239)\<close>

definition lightFactors :: "Plant list \<Rightarrow> real list" where
  "lightFactors plants = map (\<lambda>p. calculateLight p plants) plants"

type_synonym frameState = "Plant list \<times> SoilCell list \<times> nutrientUsedMap \<times> cellUsageMap"

text \<open>The loop of lines 237--239, over the indices in the list \<open>order\<close>; the program
  runs it with \<open>[0..<length plants]\<close>. \<open>lfs\<close> is the vector \<^verbatim>\<open>lightFactors\<close>.\<close>

fun growLoop :: "int \<Rightarrow> real \<Rightarrow> real \<Rightarrow> real list \<Rightarrow> nat list \<Rightarrow> frameState \<Rightarrow> fault + frameState" where
  "growLoop gridSize cellSize hs lfs [] st = Inr st"
| "growLoop gridSize cellSize hs lfs (i # rest) (plants, soil, nutrientUsed, cellUsage) =
     (if length plants \<le> i \<or> length lfs \<le> i then Inl OutOfRange
      else case grow (plants ! i) soil gridSize cellSize (lfs ! i) nutrientUsed cellUsage hs of
             Inl e \<Rightarrow> Inl e
           | Inr (p', soil', nutrientUsed', cellUsage') \<Rightarrow>
               growLoop gridSize cellSize hs lfs rest
                 (plants[i := p'], soil', nutrientUsed', cellUsage'))"

definition frameInOrder :: "nat list \<Rightarrow> int \<Rightarrow> real \<Rightarrow> real \<Rightarrow> Plant list \<Rightarrow> SoilCell list \<Rightarrow> fault + frameState" where
  "frameInOrder order gridSize cellSize hs plants soil =
     growLoop gridSize cellSize hs (lightFactors plants) order
       (plants, soil, Map.empty, Map.empty)"

definition frame :: "int \<Rightarrow> real \<Rightarrow> real \<Rightarrow> Plant list \<Rightarrow> SoilCell list \<Rightarrow> fault + frameState" where
  "frame gridSize cellSize hs plants soil =
     frameInOrder [0..<length plants] gridSize cellSize hs plants soil"

text \<open>\<open>n\<close> turns of the \<^verbatim>\<open>while\<close> loop; the usage maps are rebuilt in every frame and
  only plants and soil are carried over.\<close>

fun runFrames :: "nat \<Rightarrow> int \<Rightarrow> real \<Rightarrow> real \<Rightarrow> Plant list \<Rightarrow> SoilCell list \<Rightarrow> fault + (Plant list \<times> SoilCell list)" where
  "runFrames 0 gridSize cellSize hs plants soil = Inr (plants, soil)"
| "runFrames (Suc n) gridSize cellSize hs plants soil =
     (case frame gridSize cellSize hs plants soil of
        Inl e \<Rightarrow> Inl e
      | Inr (plants', soil', nutrientUsed', cellUsage') \<Rightarrow>
          runFrames n gridSize cellSize hs plants' soil')"

text \<open>The plants \<^verbatim>\<open>main\<close> creates (lines 206--210); \<open>r1\<close> .. \<open>r4\<close> are its calls of
  \<^verbatim>\<open>rand()\<close>, the last one made by the constructor.\<close>

definition mainPlant :: "int \<Rightarrow> int \<Rightarrow> int \<Rightarrow> int \<Rightarrow> int \<Rightarrow> int \<Rightarrow> Plant" where
  "mainPlant GRID_SIZE i r1 r2 r3 r4 =
     (let pos = \<lparr> x3 = real_of_int (r1 mod GRID_SIZE - GRID_SIZE div 2), y3 = 0.5,
                   z3 = real_of_int (r2 mod GRID_SIZE - GRID_SIZE div 2) \<rparr>;
          rate = 0.01 + real_of_int (r3 mod 10) / 2000
      in newPlant i pos 1 rate r4)"

subsection \<open>Predicates of the claims\<close>

definition cellNonNegative :: "SoilCell \<Rightarrow> bool" where
  "cellNonNegative c \<longleftrightarrow> 0 \<le> water c \<and> 0 \<le> nitrogen c \<and> 0 \<le> phosphorus c \<and> 0 \<le> potassium c"

definition soilNonNegative :: "SoilCell list \<Rightarrow> bool" where
  "soilNonNegative soil \<longleftrightarrow> list_all cellNonNegative soil"

text \<open>Some cell of the plant's index range has an overlap fraction above zero: the
  first loop of \<^verbatim>\<open>grow\<close> ends with \<open>totalOverlap\<close> other than zero.\<close>

definition hasOverlap :: "Plant \<Rightarrow> SoilCell list \<Rightarrow> int \<Rightarrow> real \<Rightarrow> bool" where
  "hasOverlap p soil gridSize cellSize \<longleftrightarrow>
     (\<exists>idx \<in> set (getOccupiedSoilIndices p gridSize cellSize).
        0 < overlapFractionWithCell p (soil ! nat idx) gridSize cellSize)"

text \<open>What the constructor establishes (for a size and growth rate that are not negative)
  and every update keeps.\<close>

definition plantInvariant :: "Plant \<Rightarrow> bool" where
  "plantInvariant p \<longleftrightarrow>
     health p \<le> 1 \<and> baseMaintenance p = 0.2 \<and> 0 \<le> maintenancePerSize p \<and> 0 \<le> size' p
     \<and> 0 \<le> growthRate p \<and> 0 \<le> age p \<and> 0 < maxAge p"


section \<open>The two loops of \<^verbatim>\<open>grow\<close>\<close>

lemma overlapFraction_stats [simp]:
  "overlapFractionWithCell (p\<lparr>lastNutrientIntake := a, lastAreaOccupied := b\<rparr>) c gs cs
     = overlapFractionWithCell p c gs cs"
  by (simp add: overlapFractionWithCell_def)

lemma sampleLoop_Cons:
  "sampleLoop p soil gs cs (idx # rest) (ov, tot, ns, ws) =
     (if idx < 0 \<or> int (length soil) \<le> idx then Inl OutOfRange
      else if 0 < overlapFractionWithCell p (soil ! nat idx) gs cs
      then sampleLoop p soil gs cs rest
             (ov @ [(idx, overlapFractionWithCell p (soil ! nat idx) gs cs)],
              tot + overlapFractionWithCell p (soil ! nat idx) gs cs,
              ns + (nitrogen (soil ! nat idx) + phosphorus (soil ! nat idx)
                    + potassium (soil ! nat idx)) / 3
                   * overlapFractionWithCell p (soil ! nat idx) gs cs,
              ws + water (soil ! nat idx) * overlapFractionWithCell p (soil ! nat idx) gs cs)
      else sampleLoop p soil gs cs rest (ov, tot, ns, ws))"
  by (simp add: Let_def)

lemma depleteLoop_Cons:
  "depleteLoop pid demand tot eff ((idx, f) # rest) (soil, nu, cu, intake, area) =
     (if idx < 0 \<or> int (length soil) \<le> idx then Inl OutOfRange
      else depleteLoop pid demand tot eff rest
             (soil[nat idx := (soil ! nat idx)
                \<lparr>water := max 0 (water (soil ! nat idx) - demand * (f / tot) * eff * 0.001),
                 nitrogen := max 0 (nitrogen (soil ! nat idx) - demand * (f / tot) * eff * 0.001),
                 phosphorus := max 0 (phosphorus (soil ! nat idx) - demand * (f / tot) * eff * 0.001),
                 potassium := max 0 (potassium (soil ! nat idx) - demand * (f / tot) * eff * 0.001)\<rparr>],
              nu(pid \<mapsto> (case nu pid of None \<Rightarrow> Map.empty | Some m \<Rightarrow> m)
                   (idx \<mapsto> (case (case nu pid of None \<Rightarrow> Map.empty | Some m \<Rightarrow> m) idx of
                                None \<Rightarrow> 0 | Some v \<Rightarrow> v) + demand * (f / tot) * eff)),
              cu(idx \<mapsto> (case cu idx of None \<Rightarrow> [] | Some l \<Rightarrow> l) @ [(pid, f, demand * (f / tot) * eff)]),
              intake + demand * (f / tot) * eff, area + f))"
  by (simp add: Let_def)

declare sampleLoop.simps(2) [simp del] depleteLoop.simps(2) [simp del]

lemma sampleLoop_stats [simp]:
  "sampleLoop (p\<lparr>lastNutrientIntake := a, lastAreaOccupied := b\<rparr>) soil gs cs idxs acc
     = sampleLoop p soil gs cs idxs acc"
proof (induction idxs arbitrary: acc)
  case Nil
  then show ?case by simp
next
  case (Cons idx rest)
  obtain ov tot ns ws where acc: "acc = (ov, tot, ns, ws)" by (cases acc) auto
  show ?case unfolding acc by (simp add: sampleLoop_Cons Cons.IH)
qed

lemma indices_stats [simp]:
  "getOccupiedSoilIndices (p\<lparr>lastNutrientIntake := a, lastAreaOccupied := b\<rparr>) gs cs
     = getOccupiedSoilIndices p gs cs"
  by (simp add: getOccupiedSoilIndices_def)

lemma sampleLoop_total:
  "sampleLoop p soil gs cs idxs (ov, tot, ns, ws) = Inr (ov', tot', ns', ws') \<Longrightarrow>
     tot' - tot = sum_list (map snd ov') - sum_list (map snd ov)"
proof (induction idxs arbitrary: ov tot ns ws)
  case Nil
  then show ?case by simp
next
  case (Cons idx rest)
  show ?case
  proof (cases "0 < overlapFractionWithCell p (soil ! nat idx) gs cs")
    case True
    with Cons.prems have "sampleLoop p soil gs cs rest
             (ov @ [(idx, overlapFractionWithCell p (soil ! nat idx) gs cs)],
              tot + overlapFractionWithCell p (soil ! nat idx) gs cs,
              ns + (nitrogen (soil ! nat idx) + phosphorus (soil ! nat idx)
                    + potassium (soil ! nat idx)) / 3
                   * overlapFractionWithCell p (soil ! nat idx) gs cs,
              ws + water (soil ! nat idx) * overlapFractionWithCell p (soil ! nat idx) gs cs)
         = Inr (ov', tot', ns', ws')"
      by (simp add: sampleLoop_Cons split: if_splits)
    from Cons.IH [OF this] show ?thesis by simp
  next
    case False
    with Cons.prems have "sampleLoop p soil gs cs rest (ov, tot, ns, ws) = Inr (ov', tot', ns', ws')"
      by (simp add: sampleLoop_Cons split: if_splits)
    from Cons.IH [OF this] show ?thesis .
  qed
qed

lemma sampleLoop_overlaps:
  "sampleLoop p soil gs cs idxs (ov, tot, ns, ws) = Inr (ov', tot', ns', ws') \<Longrightarrow>
   \<forall>(i, f) \<in> set ov. 0 \<le> i \<and> i < int (length soil) \<and> 0 < f \<Longrightarrow>
   \<forall>(i, f) \<in> set ov'. 0 \<le> i \<and> i < int (length soil) \<and> 0 < f"
proof (induction idxs arbitrary: ov tot ns ws)
  case Nil
  then show ?case by simp
next
  case (Cons idx rest)
  from Cons.prems(1) have rng: "0 \<le> idx" "idx < int (length soil)"
    by (auto simp: sampleLoop_Cons split: if_splits)
  show ?case
  proof (cases "0 < overlapFractionWithCell p (soil ! nat idx) gs cs")
    case True
    with Cons.prems have "sampleLoop p soil gs cs rest
             (ov @ [(idx, overlapFractionWithCell p (soil ! nat idx) gs cs)],
              tot + overlapFractionWithCell p (soil ! nat idx) gs cs,
              ns + (nitrogen (soil ! nat idx) + phosphorus (soil ! nat idx)
                    + potassium (soil ! nat idx)) / 3
                   * overlapFractionWithCell p (soil ! nat idx) gs cs,
              ws + water (soil ! nat idx) * overlapFractionWithCell p (soil ! nat idx) gs cs)
         = Inr (ov', tot', ns', ws')"
      by (simp add: sampleLoop_Cons split: if_splits)
    moreover have "\<forall>(i, f) \<in> set (ov @ [(idx, overlapFractionWithCell p (soil ! nat idx) gs cs)]).
         0 \<le> i \<and> i < int (length soil) \<and> 0 < f"
      using Cons.prems(2) rng True by auto
    ultimately show ?thesis by (rule Cons.IH)
  next
    case False
    with Cons.prems have "sampleLoop p soil gs cs rest (ov, tot, ns, ws) = Inr (ov', tot', ns', ws')"
      by (simp add: sampleLoop_Cons split: if_splits)
    from Cons.IH [OF this Cons.prems(2)] show ?thesis .
  qed
qed

lemma sampleLoop_defined:
  "\<forall>i \<in> set idxs. 0 \<le> i \<and> i < int (length soil) \<Longrightarrow>
   \<exists>acc'. sampleLoop p soil gs cs idxs acc = Inr acc'"
proof (induction idxs arbitrary: acc)
  case Nil
  show ?case by (rule exI) (rule sampleLoop.simps(1))
next
  case (Cons idx rest)
  obtain ov tot ns ws where acc: "acc = (ov, tot, ns, ws)" by (cases acc) auto
  from Cons.prems have "\<forall>i \<in> set rest. 0 \<le> i \<and> i < int (length soil)" by simp
  note ih = Cons.IH [OF this]
  from Cons.prems have rng: "\<not> (idx < 0 \<or> int (length soil) \<le> idx)" by auto
  show ?case unfolding acc sampleLoop_Cons if_not_P [OF rng]
    by (cases "0 < overlapFractionWithCell p (soil ! nat idx) gs cs")
       (simp_all only: if_True if_False ih)
qed

lemma depleteLoop_defined:
  "\<forall>(i, f) \<in> set ov. 0 \<le> i \<and> i < int (length soil) \<Longrightarrow>
   \<exists>st'. depleteLoop pid demand tot eff ov (soil, nu, cu, intake, area) = Inr st'"
proof (induction ov arbitrary: soil nu cu intake area)
  case Nil
  then show ?case by simp
next
  case (Cons a ov)
  obtain idx f where a: "a = (idx, f)" by (cases a)
  from Cons.prems a have rng: "0 \<le> idx" "idx < int (length soil)" by auto
  have "\<forall>(i, f) \<in> set ov. 0 \<le> i \<and> i < int (length (soil[nat idx := c]))" for c
    using Cons.prems by auto
  note ih = Cons.IH [OF this]
  from rng have rng': "\<not> (idx < 0 \<or> int (length soil) \<le> idx)" by auto
  show ?case unfolding a depleteLoop_Cons if_not_P [OF rng'] by (rule ih)
qed

lemma depleteLoop_step:
  assumes "depleteLoop pid demand tot eff ((idx, f) # rest) (soil, nu, cu, intake, area) = Inr r"
  shows "\<exists>c4 nu1 cu1. 0 \<le> idx \<and> idx < int (length soil)
           \<and> cellPosition c4 = cellPosition (soil ! nat idx) \<and> cellNonNegative c4
           \<and> depleteLoop pid demand tot eff rest
                (soil[nat idx := c4], nu1, cu1, intake + demand * (f / tot) * eff, area + f) = Inr r"
proof -
  let ?amt = "demand * (f / tot) * eff"
  let ?c = "soil ! nat idx"
  let ?c4 = "?c\<lparr>water := max 0 (water ?c - ?amt * 0.001),
                nitrogen := max 0 (nitrogen ?c - ?amt * 0.001),
                phosphorus := max 0 (phosphorus ?c - ?amt * 0.001),
                potassium := max 0 (potassium ?c - ?amt * 0.001)\<rparr>"
  let ?inner = "case nu pid of None \<Rightarrow> Map.empty | Some m \<Rightarrow> m"
  let ?nu1 = "nu(pid \<mapsto> ?inner(idx \<mapsto> (case ?inner idx of None \<Rightarrow> 0 | Some v \<Rightarrow> v) + ?amt))"
  let ?cu1 = "cu(idx \<mapsto> (case cu idx of None \<Rightarrow> [] | Some l \<Rightarrow> l) @ [(pid, f, ?amt)])"
  from assms have "0 \<le> idx \<and> idx < int (length soil)
      \<and> depleteLoop pid demand tot eff rest
           (soil[nat idx := ?c4], ?nu1, ?cu1, intake + ?amt, area + f) = Inr r"
    by (simp add: depleteLoop_Cons split: if_splits)
  moreover have "cellPosition ?c4 = cellPosition ?c" by simp
  moreover have "cellNonNegative ?c4" by (simp add: cellNonNegative_def)
  ultimately show ?thesis by blast
qed

lemma depleteLoop_sums:
  "depleteLoop pid demand tot eff ov (soil, nu, cu, intake, area) = Inr (soil', nu', cu', intake', area') \<Longrightarrow>
   intake' = intake + (\<Sum>(idx, f) \<leftarrow> ov. demand * (f / tot) * eff) \<and>
   area' = area + sum_list (map snd ov) \<and> length soil' = length soil \<and>
   map cellPosition soil' = map cellPosition soil"
proof (induction ov arbitrary: soil nu cu intake area)
  case Nil
  then show ?case by simp
next
  case (Cons a ov)
  obtain idx f where a: "a = (idx, f)" by (cases a)
  from depleteLoop_step [OF Cons.prems [unfolded a]] obtain c4 nu1 cu1 where
    rng: "0 \<le> idx" "idx < int (length soil)" and
    c4: "cellPosition c4 = cellPosition (soil ! nat idx)" and
    r: "depleteLoop pid demand tot eff ov (soil[nat idx := c4], nu1, cu1,
           intake + demand * (f / tot) * eff, area + f) = Inr (soil', nu', cu', intake', area')"
    by blast
  have "map cellPosition (soil[nat idx := c4]) = map cellPosition soil"
    using c4 rng by (auto simp: list_eq_iff_nth_eq nth_list_update)
  with Cons.IH [OF r] show ?case unfolding a by simp
qed

lemma depleteLoop_nonneg:
  "depleteLoop pid demand tot eff ov (soil, nu, cu, intake, area) = Inr (soil', nu', cu', intake', area') \<Longrightarrow>
   soilNonNegative soil \<Longrightarrow> soilNonNegative soil'"
proof (induction ov arbitrary: soil nu cu intake area)
  case Nil
  then show ?case by simp
next
  case (Cons a ov)
  obtain idx f where a: "a = (idx, f)" by (cases a)
  from depleteLoop_step [OF Cons.prems(1) [unfolded a]] obtain c4 nu1 cu1 where
    c4: "cellNonNegative c4" and
    r: "depleteLoop pid demand tot eff ov (soil[nat idx := c4], nu1, cu1,
           intake + demand * (f / tot) * eff, area + f) = Inr (soil', nu', cu', intake', area')"
    by blast
  have "soilNonNegative (soil[nat idx := c4])"
    using Cons.prems(2) c4 unfolding soilNonNegative_def list_all_iff
    by (auto dest: set_update_subset_insert [THEN subsetD])
  with Cons.IH [OF r] show ?case .
qed



section \<open>One call of \<^verbatim>\<open>grow\<close>\<close>

lemma grid_set:
  "idx \<in> set (concat (map (\<lambda>x. map (\<lambda>z. z * gs + x) (filter (\<lambda>z. P x z) [c..d])) [a..b]))
     \<longleftrightarrow> (\<exists>x z. idx = z * (gs::int) + x \<and> a \<le> x \<and> x \<le> b \<and> c \<le> z \<and> z \<le> d \<and> P x z)"
  by auto blast

lemma indices_set:
  "idx \<in> set (getOccupiedSoilIndices p gs cs) \<longleftrightarrow>
     (\<exists>x z. idx = z * gs + x
        \<and> \<lfloor>(x3 (position p) - size' p * 0.5 + real_of_int gs * 0.5) / cs\<rfloor> \<le> x
        \<and> x \<le> \<lfloor>(x3 (position p) + size' p * 0.5 + real_of_int gs * 0.5) / cs\<rfloor>
        \<and> \<lfloor>(z3 (position p) - size' p * 0.5 + real_of_int gs * 0.5) / cs\<rfloor> \<le> z
        \<and> z \<le> \<lfloor>(z3 (position p) + size' p * 0.5 + real_of_int gs * 0.5) / cs\<rfloor>
        \<and> 0 \<le> x \<and> x < gs \<and> 0 \<le> z \<and> z < gs)"
  unfolding getOccupiedSoilIndices_def safeFloorToInt_def Let_def grid_set
  by blast

lemma cell_index_range:
  fixes x z gs :: int
  assumes "0 \<le> x" "x < gs" "0 \<le> z" "z < gs"
  shows "0 \<le> z * gs + x \<and> z * gs + x < gs * gs"
proof -
  from assms have "z * gs \<le> (gs - 1) * gs" by (intro mult_right_mono) auto
  then have "z * gs + x < (gs - 1) * gs + gs" using assms by linarith
  also have "\<dots> = gs * gs" by (simp add: algebra_simps)
  finally have "z * gs + x < gs * gs" .
  moreover from assms have "0 \<le> z * gs" by simp
  ultimately show ?thesis using assms by simp
qed

lemma indices_range:
  "idx \<in> set (getOccupiedSoilIndices p gs cs) \<Longrightarrow> 0 \<le> idx \<and> idx < gs * gs"
  unfolding indices_set using cell_index_range by blast

lemma grow_length:
  assumes "grow p soil gs cs lf nu cu hs = Inr (p', soil', nu', cu')"
  shows "length soil' = length soil \<and> map cellPosition soil' = map cellPosition soil"
proof (cases "alive p")
  case False
  with assms show ?thesis by (simp add: grow_def)
next
  case True
  with assms obtain ov tot ns ws where
    s: "sampleLoop p soil gs cs (getOccupiedSoilIndices p gs cs) ([], 0, 0, 0) = Inr (ov, tot, ns, ws)"
    by (auto simp: grow_def Let_def split: sum.splits)
  show ?thesis
  proof (cases "tot = 0")
    case True
    with assms \<open>alive p\<close> s show ?thesis by (simp add: grow_def Let_def)
  next
    case False
    with assms \<open>alive p\<close> s obtain pid demand eff i0 a0 intake area where
      "depleteLoop pid demand tot eff ov (soil, nu, cu, i0, a0) = Inr (soil', nu', cu', intake, area)"
      by (auto simp: grow_def Let_def split: sum.splits)
    from depleteLoop_sums [OF this] show ?thesis by simp
  qed
qed

lemma grow_defined:
  assumes "gs * gs \<le> int (length soil)"
  shows "\<exists>w. grow p soil gs cs lf nu cu hs = Inr w"
proof (cases "alive p")
  case False
  then show ?thesis by (simp add: grow_def)
next
  case True
  have "\<forall>i \<in> set (getOccupiedSoilIndices p gs cs). 0 \<le> i \<and> i < int (length soil)"
    using indices_range assms by fastforce
  from sampleLoop_defined [OF this] obtain acc where
    "sampleLoop p soil gs cs (getOccupiedSoilIndices p gs cs) ([], 0, 0, 0) = Inr acc"
    by blast
  then obtain ov tot ns ws where
    s: "sampleLoop p soil gs cs (getOccupiedSoilIndices p gs cs) ([], 0, 0, 0) = Inr (ov, tot, ns, ws)"
    by (cases acc) auto
  from sampleLoop_overlaps [OF s] have "\<forall>(i, f) \<in> set ov. 0 \<le> i \<and> i < int (length soil)"
    by auto
  from depleteLoop_defined [OF this]
  have d: "\<exists>st'. depleteLoop pid demand tot' eff ov (soil, nu, cu, intake, area) = Inr st'"
    for pid demand tot' eff intake area by blast
  show ?thesis
  proof (cases "tot = 0")
    case True
    with \<open>alive p\<close> s show ?thesis by (simp add: grow_def Let_def)
  next
    case False
    let ?p1 = "p\<lparr>lastNutrientIntake := 0, lastAreaOccupied := 0\<rparr>"
    let ?delta = "growthDelta ?p1 (netEnergy ?p1 lf tot ns ws)"
    from d [of "id' p" "max 0 (?delta * 0.5)" tot "adsorptionEfficiency p" 0 0]
    obtain st' where "depleteLoop (id' p) (max 0 (?delta * 0.5)) tot (adsorptionEfficiency p) ov
        (soil, nu, cu, 0, 0) = Inr st'" by blast
    moreover obtain a b c d e where "st' = (a, b, c, d, e)" by (cases st') auto
    ultimately show ?thesis using \<open>alive p\<close> s False
      by (simp add: grow_def Let_def)
  qed
qed



section \<open>The frame loop\<close>

lemma grow_dead: "\<not> alive p \<Longrightarrow> grow p soil gs cs lf nu cu hs = Inr (p, soil, nu, cu)"
  by (simp add: grow_def)

lemma growLoop_Cons:
  assumes "growLoop gs cs hs lfs (j # rest) (ps, soil, nu, cu) = Inr r"
  obtains p1 s1 n1 c1 where "j < length ps" "j < length lfs"
    "grow (ps ! j) soil gs cs (lfs ! j) nu cu hs = Inr (p1, s1, n1, c1)"
    "growLoop gs cs hs lfs rest (ps[j := p1], s1, n1, c1) = Inr r"
  using assms by (auto split: if_splits sum.splits)

lemma growLoop_plants:
  assumes "growLoop gs cs hs lfs order (ps, soil, nu, cu) = Inr (ps', soil', nu', cu')"
    and "distinct order"
  shows "length ps' = length ps
       \<and> (\<forall>i. i \<notin> set order \<longrightarrow> ps' ! i = ps ! i)
       \<and> (\<forall>i \<in> set order. i < length ps \<and> i < length lfs \<and> (\<exists>s n c s2 n2 c2.
             grow (ps ! i) s gs cs (lfs ! i) n c hs = Inr (ps' ! i, s2, n2, c2)))"
  using assms
proof (induction order arbitrary: ps soil nu cu)
  case Nil
  then show ?case by simp
next
  case (Cons j rest)
  from Cons.prems(1) obtain p1 s1 n1 c1 where jlt: "j < length ps" "j < length lfs" and
    g: "grow (ps ! j) soil gs cs (lfs ! j) nu cu hs = Inr (p1, s1, n1, c1)" and
    r: "growLoop gs cs hs lfs rest (ps[j := p1], s1, n1, c1) = Inr (ps', soil', nu', cu')"
    by (rule growLoop_Cons)
  from Cons.prems(2) have d: "distinct rest" and jn: "j \<notin> set rest" by auto
  note ih = Cons.IH [OF r d]
  from ih have len: "length ps' = length ps" by simp
  have out: "\<forall>i. i \<notin> set (j # rest) \<longrightarrow> ps' ! i = ps ! i"
    using ih by auto
  have pj: "ps' ! j = p1" using ih jn jlt by auto
  have inn: "\<forall>i \<in> set (j # rest). i < length ps \<and> i < length lfs \<and> (\<exists>s n c s2 n2 c2.
             grow (ps ! i) s gs cs (lfs ! i) n c hs = Inr (ps' ! i, s2, n2, c2))"
  proof
    fix i assume i: "i \<in> set (j # rest)"
    show "i < length ps \<and> i < length lfs \<and> (\<exists>s n c s2 n2 c2.
             grow (ps ! i) s gs cs (lfs ! i) n c hs = Inr (ps' ! i, s2, n2, c2))"
    proof (cases "i = j")
      case True
      then show ?thesis using g pj jlt by blast
    next
      case False
      with i have ir: "i \<in> set rest" by simp
      with ih have "i < length (ps[j := p1]) \<and> i < length lfs \<and> (\<exists>s n c s2 n2 c2.
             grow (ps[j := p1] ! i) s gs cs (lfs ! i) n c hs = Inr (ps' ! i, s2, n2, c2))"
        by blast
      with False show ?thesis by simp
    qed
  qed
  from len out inn show ?case by blast
qed

lemma growLoop_soil:
  assumes "growLoop gs cs hs lfs order (ps, soil, nu, cu) = Inr (ps', soil', nu', cu')"
  shows "length soil' = length soil \<and> map cellPosition soil' = map cellPosition soil"
  using assms
proof (induction order arbitrary: ps soil nu cu)
  case Nil
  then show ?case by simp
next
  case (Cons j rest)
  from Cons.prems(1) obtain p1 s1 n1 c1 where
    g: "grow (ps ! j) soil gs cs (lfs ! j) nu cu hs = Inr (p1, s1, n1, c1)" and
    r: "growLoop gs cs hs lfs rest (ps[j := p1], s1, n1, c1) = Inr (ps', soil', nu', cu')"
    by (rule growLoop_Cons)
  from Cons.IH [OF r] grow_length [OF g] show ?case by simp
qed

lemma growLoop_defined:
  assumes "gs * gs \<le> int (length soil)"
    and "\<forall>i \<in> set order. i < length ps \<and> i < length lfs"
  shows "\<exists>st. growLoop gs cs hs lfs order (ps, soil, nu, cu) = Inr st"
  using assms
proof (induction order arbitrary: ps soil nu cu)
  case Nil
  show ?case by (rule exI) (rule growLoop.simps(1))
next
  case (Cons j rest)
  from grow_defined [OF Cons.prems(1)] obtain w where
    "grow (ps ! j) soil gs cs (lfs ! j) nu cu hs = Inr w" by blast
  then obtain p1 s1 n1 c1 where
    g: "grow (ps ! j) soil gs cs (lfs ! j) nu cu hs = Inr (p1, s1, n1, c1)"
    by (cases w) auto
  from grow_length [OF g] Cons.prems(1) have "gs * gs \<le> int (length s1)" by simp
  moreover from Cons.prems(2)
  have "\<forall>i \<in> set rest. i < length (ps[j := p1]) \<and> i < length lfs" by simp
  ultimately have "\<exists>st. growLoop gs cs hs lfs rest (ps[j := p1], s1, n1, c1) = Inr st"
    by (rule Cons.IH)
  with g Cons.prems(2) show ?case by simp
qed

lemma lightFactors_nth:
  "i < length plants \<Longrightarrow> lightFactors plants ! i = calculateLight (plants ! i) plants"
  by (simp add: lightFactors_def)

lemma frame_defined:
  assumes "gs * gs \<le> int (length soil)"
  shows "\<exists>st. frame gs cs hs plants soil = Inr st"
  unfolding frame_def frameInOrder_def
  by (rule growLoop_defined [OF assms]) (simp add: lightFactors_def)

lemma frame_soil:
  assumes "frame gs cs hs plants soil = Inr (ps', soil', nu', cu')"
  shows "length soil' = length soil \<and> map cellPosition soil' = map cellPosition soil"
  using growLoop_soil [OF assms [unfolded frame_def frameInOrder_def]] .

lemma runFrames_defined:
  assumes "gs * gs \<le> int (length soil)"
  shows "\<exists>r. runFrames n gs cs hs plants soil = Inr r"
  using assms
proof (induction n arbitrary: plants soil)
  case 0
  show ?case by (rule exI) (rule runFrames.simps(1))
next
  case (Suc n)
  from frame_defined [OF Suc.prems] obtain st where "frame gs cs hs plants soil = Inr st"
    by blast
  then obtain ps1 s1 n1 c1 where f: "frame gs cs hs plants soil = Inr (ps1, s1, n1, c1)"
    by (cases st) auto
  from frame_soil [OF f] Suc.prems have "gs * gs \<le> int (length s1)" by simp
  from Suc.IH [OF this] f show ?case by simp
qed

lemma growLoop_dead:
  assumes "growLoop gs cs hs lfs order (ps, soil, nu, cu) = Inr (ps', soil', nu', cu')"
    and "i < length ps" and "\<not> alive (ps ! i)"
  shows "length ps' = length ps \<and> ps' ! i = ps ! i"
  using assms
proof (induction order arbitrary: ps soil nu cu)
  case Nil
  then show ?case by simp
next
  case (Cons j rest)
  from Cons.prems(1) obtain p1 s1 n1 c1 where jlt: "j < length ps" "j < length lfs" and
    g: "grow (ps ! j) soil gs cs (lfs ! j) nu cu hs = Inr (p1, s1, n1, c1)" and
    r: "growLoop gs cs hs lfs rest (ps[j := p1], s1, n1, c1) = Inr (ps', soil', nu', cu')"
    by (rule growLoop_Cons)
  have same: "ps[j := p1] ! i = ps ! i"
  proof (cases "i = j")
    case True
    with g Cons.prems(3) have "p1 = ps ! i" by (simp add: grow_dead)
    with True jlt show ?thesis by simp
  next
    case False
    then show ?thesis by simp
  qed
  with Cons.prems have "i < length (ps[j := p1])" "\<not> alive (ps[j := p1] ! i)" by simp_all
  from Cons.IH [OF r this] same show ?case by simp
qed

lemma runFrames_dead:
  assumes "runFrames n gs cs hs ps soil = Inr (ps', soil')"
    and "i < length ps" and "\<not> alive (ps ! i)"
  shows "length ps' = length ps \<and> ps' ! i = ps ! i"
  using assms
proof (induction n arbitrary: ps soil)
  case 0
  then show ?case by simp
next
  case (Suc n)
  from Suc.prems(1) obtain ps1 s1 n1 c1 where
    f: "frame gs cs hs ps soil = Inr (ps1, s1, n1, c1)" and
    r: "runFrames n gs cs hs ps1 s1 = Inr (ps', soil')"
    by (auto split: sum.splits)
  from growLoop_dead [OF f [unfolded frame_def frameInOrder_def] Suc.prems(2,3)]
  have *: "length ps1 = length ps" "ps1 ! i = ps ! i" by simp_all
  with Suc.prems have "i < length ps1" "\<not> alive (ps1 ! i)" by simp_all
  from Suc.IH [OF r this] * show ?case by simp
qed


lemma lightLoop_geometry:
  assumes "id' q = id' p" and "position q = position p" and "size' q = size' p"
    and "map id' qs = map id' ps" and "map position qs = map position ps"
    and "map size' qs = map size' ps"
  shows "lightLoop q qs light = lightLoop p ps light"
  using assms(4-6)
proof (induction ps arbitrary: qs light)
  case Nil
  then show ?case by simp
next
  case (Cons other rest)
  from Cons.prems obtain o' rest' where qs: "qs = o' # rest'"
    and o: "id' o' = id' other" "position o' = position other" "size' o' = size' other"
    and r: "map id' rest' = map id' rest" "map position rest' = map position rest"
      "map size' rest' = map size' rest"
    by (cases qs) auto
  have ih: "lightLoop q rest' l = lightLoop p rest l" for l
    using Cons.IH [OF r] .
  show ?case unfolding qs
    by (simp add: ih assms(1-3) o topY_def Let_def)
qed

lemma lightFactors_geometry:
  assumes "map id' qs = map id' ps" and "map position qs = map position ps"
    and "map size' qs = map size' ps"
  shows "lightFactors qs = lightFactors ps"
proof (rule nth_equalityI)
  from assms(1) have len: "length qs = length ps" by (rule map_eq_imp_length_eq)
  then show "length (lightFactors qs) = length (lightFactors ps)" by (simp add: lightFactors_def)
  fix i assume "i < length (lightFactors qs)"
  with len have i: "i < length qs" "i < length ps" by (simp_all add: lightFactors_def)
  from assms i have "id' (qs ! i) = id' (ps ! i)" "position (qs ! i) = position (ps ! i)"
    "size' (qs ! i) = size' (ps ! i)"
    by (metis nth_map)+
  from lightLoop_geometry [OF this assms] i
  show "lightFactors qs ! i = lightFactors ps ! i"
    by (simp add: lightFactors_def calculateLight_def)
qed

section \<open>The paths through \<^verbatim>\<open>grow\<close>, and what frames preserve\<close>

lemma netEnergy_stats [simp]:
  "netEnergy (p\<lparr>lastNutrientIntake := a, lastAreaOccupied := b\<rparr>) lf tot ns ws = netEnergy p lf tot ns ws"
  by (simp add: netEnergy_def)

lemma growthDelta_stats [simp]:
  "growthDelta (p\<lparr>lastNutrientIntake := a, lastAreaOccupied := b\<rparr>) e = growthDelta p e"
  by (simp add: growthDelta_def)

lemma grow_zero_overlap:
  assumes "alive p"
    and "sampleLoop p soil gs cs (getOccupiedSoilIndices p gs cs) ([], 0, 0, 0) = Inr (ov, 0, ns, ws)"
  shows "grow p soil gs cs lf nu cu hs
           = Inr (p\<lparr>lastNutrientIntake := 0, lastAreaOccupied := 0, age := age p + 0.01\<rparr>, soil, nu, cu)"
  using assms by (simp add: grow_def)

text \<open>What the full update (lines 142--181) leaves in the plant.\<close>

lemma grow_full:
  assumes "alive p"
    and "sampleLoop p soil gs cs (getOccupiedSoilIndices p gs cs) ([], 0, 0, 0) = Inr (ov, tot, ns, ws)"
    and "tot \<noteq> 0"
    and "grow p soil gs cs lf nu cu hs = Inr (p', soil', nu', cu')"
  shows "\<exists>intake area.
      depleteLoop (id' p) (max 0 (growthDelta p (netEnergy p lf tot ns ws) * 0.5)) tot
          (adsorptionEfficiency p) ov (soil, nu, cu, 0, 0) = Inr (soil', nu', cu', intake, area)
      \<and> lastNutrientIntake p' = intake \<and> lastAreaOccupied p' = area
      \<and> size' p' = max 0.2 (size' p + growthDelta p (netEnergy p lf tot ns ws))
      \<and> health p' = clampf (health p + netEnergy p lf tot ns ws * 0.001 - 0.0005) 0 1
      \<and> age p' = age p + 0.01
      \<and> alive p' = (0 < health p' \<and> age p' < maxAge p')
      \<and> position p' = (position p)\<lparr>y3 := size' p' * hs / 2 + 0.1\<rparr>
      \<and> id' p' = id' p \<and> growthRate p' = growthRate p \<and> maxAge p' = maxAge p
      \<and> photosyntheticEfficiency p' = photosyntheticEfficiency p
      \<and> baseMaintenance p' = baseMaintenance p
      \<and> maintenancePerSize p' = maintenancePerSize p
      \<and> adsorptionEfficiency p' = adsorptionEfficiency p"
proof -
  let ?e = "netEnergy p lf tot ns ws"
  let ?demand = "max 0 (growthDelta p ?e * 0.5)"
  from assms obtain intake area where
    d: "depleteLoop (id' p) ?demand tot (adsorptionEfficiency p) ov (soil, nu, cu, 0, 0)
          = Inr (soil', nu', cu', intake, area)"
    by (auto simp: grow_def Let_def split: sum.splits if_splits)
  with assms show ?thesis
    by (auto simp: grow_def Let_def split: if_splits)
qed

lemma growthDelta_pos: "0 < growthRate p \<Longrightarrow> 0 < growthDelta p e"
  by (simp add: growthDelta_def)

lemma growthDelta_nonneg: "0 \<le> growthRate p \<Longrightarrow> 0 \<le> growthDelta p e"
  by (simp add: growthDelta_def)

lemma grow_cases:
  assumes "grow p soil gs cs lf nu cu hs = Inr (p', soil', nu', cu')"
  obtains (dead) "\<not> alive p" "p' = p" "soil' = soil" "nu' = nu" "cu' = cu"
  | (off) ov ns ws where "alive p"
      "sampleLoop p soil gs cs (getOccupiedSoilIndices p gs cs) ([], 0, 0, 0) = Inr (ov, 0, ns, ws)"
      "p' = p\<lparr>lastNutrientIntake := 0, lastAreaOccupied := 0, age := age p + 0.01\<rparr>"
      "soil' = soil" "nu' = nu" "cu' = cu"
  | (full) ov tot ns ws where "alive p"
      "sampleLoop p soil gs cs (getOccupiedSoilIndices p gs cs) ([], 0, 0, 0) = Inr (ov, tot, ns, ws)"
      "tot \<noteq> 0"
proof (cases "alive p")
  case False
  with assms have "p' = p" "soil' = soil" "nu' = nu" "cu' = cu" by (simp_all add: grow_def)
  with False show ?thesis by (rule dead)
next
  case True
  with assms obtain ov tot ns ws where
    s: "sampleLoop p soil gs cs (getOccupiedSoilIndices p gs cs) ([], 0, 0, 0) = Inr (ov, tot, ns, ws)"
    by (auto simp: grow_def Let_def split: sum.splits)
  show ?thesis
  proof (cases "tot = 0")
    case True
    from assms grow_zero_overlap [OF \<open>alive p\<close> s [unfolded True], of lf nu cu hs]
    have "p' = p\<lparr>lastNutrientIntake := 0, lastAreaOccupied := 0, age := age p + 0.01\<rparr>"
      "soil' = soil" "nu' = nu" "cu' = cu" by simp_all
    with \<open>alive p\<close> s [unfolded True] show ?thesis by (rule off)
  next
    case False
    with \<open>alive p\<close> s show ?thesis by (rule full)
  qed
qed

lemma grow_size_mono:
  assumes "grow p soil gs cs lf nu cu hs = Inr (p', soil', nu', cu')" and "0 \<le> growthRate p"
  shows "size' p \<le> size' p' \<and> growthRate p' = growthRate p"
  using assms(1)
proof (cases rule: grow_cases)
  case dead
  then show ?thesis by simp
next
  case (off ov ns ws)
  then show ?thesis by simp
next
  case (full ov tot ns ws)
  from grow_full [OF full assms(1)] growthDelta_nonneg [OF assms(2), of "netEnergy p lf tot ns ws"]
  show ?thesis by auto
qed

lemma growLoop_size_mono:
  assumes "growLoop gs cs hs lfs order (ps, soil, nu, cu) = Inr (ps', soil', nu', cu')"
    and "\<forall>i < length ps. 0 \<le> growthRate (ps ! i)"
  shows "length ps' = length ps
       \<and> (\<forall>i < length ps. size' (ps ! i) \<le> size' (ps' ! i) \<and> growthRate (ps' ! i) = growthRate (ps ! i))"
  using assms
proof (induction order arbitrary: ps soil nu cu)
  case Nil
  then show ?case by simp
next
  case (Cons j rest)
  from Cons.prems(1) obtain p1 s1 n1 c1 where jlt: "j < length ps" "j < length lfs" and
    g: "grow (ps ! j) soil gs cs (lfs ! j) nu cu hs = Inr (p1, s1, n1, c1)" and
    r: "growLoop gs cs hs lfs rest (ps[j := p1], s1, n1, c1) = Inr (ps', soil', nu', cu')"
    by (rule growLoop_Cons)
  from jlt Cons.prems(2) have "0 \<le> growthRate (ps ! j)" by simp
  from grow_size_mono [OF g this]
  have p1: "size' (ps ! j) \<le> size' p1" "growthRate p1 = growthRate (ps ! j)" by simp_all
  have step: "\<forall>i < length ps. size' (ps ! i) \<le> size' (ps[j := p1] ! i)
                \<and> growthRate (ps[j := p1] ! i) = growthRate (ps ! i)"
    using p1 jlt by (auto simp: nth_list_update)
  with Cons.prems(2) have "\<forall>i < length (ps[j := p1]). 0 \<le> growthRate (ps[j := p1] ! i)"
    by simp
  from Cons.IH [OF r this] step show ?case by fastforce
qed

lemma runFrames_size_mono:
  assumes "runFrames n gs cs hs ps soil = Inr (ps', soil')"
    and "\<forall>i < length ps. 0 \<le> growthRate (ps ! i)"
  shows "length ps' = length ps
       \<and> (\<forall>i < length ps. size' (ps ! i) \<le> size' (ps' ! i) \<and> growthRate (ps' ! i) = growthRate (ps ! i))"
  using assms
proof (induction n arbitrary: ps soil)
  case 0
  then show ?case by simp
next
  case (Suc n)
  from Suc.prems(1) obtain ps1 s1 n1 c1 where
    f: "frame gs cs hs ps soil = Inr (ps1, s1, n1, c1)" and
    r: "runFrames n gs cs hs ps1 s1 = Inr (ps', soil')"
    by (auto split: sum.splits)
  note one = growLoop_size_mono [OF f [unfolded frame_def frameInOrder_def] Suc.prems(2)]
  with Suc.prems(2) have "\<forall>i < length ps1. 0 \<le> growthRate (ps1 ! i)" by simp
  from Suc.IH [OF r this] one show ?case by fastforce
qed

lemma grow_soil_nonneg:
  assumes "grow p soil gs cs lf nu cu hs = Inr (p', soil', nu', cu')" and "soilNonNegative soil"
  shows "soilNonNegative soil'"
  using assms(1)
proof (cases rule: grow_cases)
  case dead
  with assms(2) show ?thesis by simp
next
  case (off ov ns ws)
  with assms(2) show ?thesis by simp
next
  case (full ov tot ns ws)
  from grow_full [OF full assms(1)] obtain pid demand eff intake area where
    "depleteLoop pid demand tot eff ov (soil, nu, cu, 0, 0) = Inr (soil', nu', cu', intake, area)"
    by blast
  from depleteLoop_nonneg [OF this assms(2)] show ?thesis .
qed

lemma growLoop_soil_nonneg:
  assumes "growLoop gs cs hs lfs order (ps, soil, nu, cu) = Inr (ps', soil', nu', cu')"
    and "soilNonNegative soil"
  shows "soilNonNegative soil'"
  using assms
proof (induction order arbitrary: ps soil nu cu)
  case Nil
  then show ?case by simp
next
  case (Cons j rest)
  from Cons.prems(1) obtain p1 s1 n1 c1 where
    g: "grow (ps ! j) soil gs cs (lfs ! j) nu cu hs = Inr (p1, s1, n1, c1)" and
    r: "growLoop gs cs hs lfs rest (ps[j := p1], s1, n1, c1) = Inr (ps', soil', nu', cu')"
    by (rule growLoop_Cons)
  from grow_soil_nonneg [OF g Cons.prems(2)] have "soilNonNegative s1" .
  from Cons.IH [OF r this] show ?case .
qed

lemma runFrames_soil_nonneg:
  assumes "runFrames n gs cs hs ps soil = Inr (ps', soil')" and "soilNonNegative soil"
  shows "soilNonNegative soil'"
  using assms
proof (induction n arbitrary: ps soil)
  case 0
  then show ?case by simp
next
  case (Suc n)
  from Suc.prems(1) obtain ps1 s1 n1 c1 where
    f: "frame gs cs hs ps soil = Inr (ps1, s1, n1, c1)" and
    r: "runFrames n gs cs hs ps1 s1 = Inr (ps', soil')"
    by (auto split: sum.splits)
  from growLoop_soil_nonneg [OF f [unfolded frame_def frameInOrder_def] Suc.prems(2)]
  have "soilNonNegative s1" .
  from Suc.IH [OF r this] show ?case .
qed

lemma newSoilCell_nonneg: "cellNonNegative (newSoilCell pos r1 r2 r3 r4)"
  by (simp add: cellNonNegative_def newSoilCell_def)

lemma take_fractions_sum:
  assumes "tot = sum_list (map snd ov)" and "tot \<noteq> 0"
  shows "(\<Sum>(idx, f) \<leftarrow> ov. f / tot) = (1::real)"
proof -
  have "(\<Sum>(idx, f) \<leftarrow> ov. f / tot) = sum_list (map snd ov) / tot"
    by (induction ov) (auto simp: add_divide_distrib)
  then show ?thesis using assms by simp
qed

lemma amounts_sum:
  "(\<Sum>(idx, f) \<leftarrow> ov. demand * (f / tot) * eff) = demand * eff * (\<Sum>(idx, f) \<leftarrow> ov. f / tot)"
  for demand :: real
  by (induction ov) (auto simp: algebra_simps)

lemma indices_age [simp]:
  "getOccupiedSoilIndices (p\<lparr>age := a\<rparr>) gs cs = getOccupiedSoilIndices p gs cs"
  by (simp add: getOccupiedSoilIndices_def)

lemma growRepeat_off_grid:
  assumes "alive p" and "getOccupiedSoilIndices p gs cs = []"
    and "lastNutrientIntake p = 0" and "lastAreaOccupied p = 0"
  shows "growRepeat n p soil gs cs lf nu cu hs
           = Inr (p\<lparr>age := age p + 0.01 * real n\<rparr>, soil, nu, cu)"
  using assms
proof (induction n arbitrary: p)
  case 0
  then show ?case by simp
next
  case (Suc n)
  let ?q = "p\<lparr>age := age p + 0.01\<rparr>"
  from Suc.prems(2) have s: "sampleLoop p soil gs cs (getOccupiedSoilIndices p gs cs) ([], 0, 0, 0)
      = Inr ([], 0, 0, 0)" by simp
  have "p\<lparr>lastNutrientIntake := 0, lastAreaOccupied := 0, age := age p + 0.01\<rparr> = ?q"
    using Suc.prems(3,4) by simp
  with grow_zero_overlap [OF Suc.prems(1) s, of lf nu cu hs]
  have g: "grow p soil gs cs lf nu cu hs = Inr (?q, soil, nu, cu)" by simp
  have "growRepeat n ?q soil gs cs lf nu cu hs
          = Inr (?q\<lparr>age := age ?q + 0.01 * real n\<rparr>, soil, nu, cu)"
    using Suc.prems by (intro Suc.IH) simp_all
  moreover have "?q\<lparr>age := age ?q + 0.01 * real n\<rparr> = p\<lparr>age := age p + 0.01 * real (Suc n)\<rparr>"
    by (simp add: algebra_simps)
  ultimately show ?case using g by simp
qed

section \<open>Overlap geometry\<close>

lemma overlapAreaXZ_commute: "overlapAreaXZ ax az ah bx bz bh = overlapAreaXZ bx bz bh ax az ah"
  by (simp add: overlapAreaXZ_def Let_def min.commute max.commute)




lemma upto_two: "[c..c + 1] = [c, c + 1]" for c :: int
  by (simp add: upto_rec1)

lemma centered_indices:
  assumes "x3 (position p) = real_of_int cx - real_of_int gs * 0.5 + 0.5"
    and "z3 (position p) = real_of_int cz - real_of_int gs * 0.5 + 0.5"
    and "size' p = 1"
  shows "getOccupiedSoilIndices p gs 1 =
           concat (map (\<lambda>x. map (\<lambda>z. z * gs + x)
                               (filter (\<lambda>z. 0 \<le> x \<and> x < gs \<and> 0 \<le> z \<and> z < gs) [cz, cz + 1]))
                       [cx, cx + 1])"
proof -
  have a: "safeFloorToInt ((x3 (position p) - size' p * 0.5 + real_of_int gs * 0.5) / 1) = cx"
    and b: "safeFloorToInt ((x3 (position p) + size' p * 0.5 + real_of_int gs * 0.5) / 1) = cx + 1"
    and c: "safeFloorToInt ((z3 (position p) - size' p * 0.5 + real_of_int gs * 0.5) / 1) = cz"
    and d: "safeFloorToInt ((z3 (position p) + size' p * 0.5 + real_of_int gs * 0.5) / 1) = cz + 1"
    using assms by (simp_all add: safeFloorToInt_def)
  show ?thesis
    unfolding getOccupiedSoilIndices_def Let_def a b c d upto_two ..
qed

lemma unit_overlap:
  fixes x c :: int and g :: real
  shows "max 0 (min (real_of_int c - g + 0.5 + 0.5) (real_of_int x - g + 0.5 + 0.5)
               - max (real_of_int c - g + 0.5 - 0.5) (real_of_int x - g + 0.5 - 0.5))
         = (if x = c then 1 else 0)"
proof (cases "x = c")
  case True
  then show ?thesis by simp
next
  case False
  then have "x \<le> c - 1 \<or> c + 1 \<le> x" by linarith
  then have "real_of_int x \<le> real_of_int c - 1 \<or> real_of_int c + 1 \<le> real_of_int x"
    by (metis of_int_1 of_int_add of_int_diff of_int_le_iff)
  with False show ?thesis by auto
qed

lemma centered_fraction:
  assumes "x3 (position p) = real_of_int cx - real_of_int gs * 0.5 + 0.5"
    and "z3 (position p) = real_of_int cz - real_of_int gs * 0.5 + 0.5"
    and "size' p = 1"
    and "cellPosition c = \<lparr>x2 = real_of_int x, y2 = real_of_int z\<rparr>"
  shows "overlapFractionWithCell p c gs 1 = (if x = cx \<and> z = cz then 1 else 0)"
proof -
  let ?g = "real_of_int gs * 0.5"
  have "overlapAreaXZ (x3 (position p)) (z3 (position p)) (size' p * 0.5)
          (x2 (cellPosition c) - ?g + 1 * 0.5) (y2 (cellPosition c) - ?g + 1 * 0.5) (1 * 0.5)
        = (if x = cx then 1 else 0) * (if z = cz then 1 else 0)"
    unfolding overlapAreaXZ_def Let_def assms
    using unit_overlap [of cx ?g x] unit_overlap [of cz ?g z] by simp
  then show ?thesis
    unfolding overlapFractionWithCell_def Let_def by (simp add: clampf_def)
qed

section \<open>A plant of size 1 alone on a grid of one cell\<close>

lemma ex_indices: "getOccupiedSoilIndices (newPlant 0 \<lparr>x3 = 0, y3 = 0.5, z3 = 0\<rparr> 1 0.01 0) 1 1 = [0]"
  by (simp add: getOccupiedSoilIndices_def newPlant_def safeFloorToInt_def Let_def upto_rec1)

lemma ex_sample: "sampleLoop (newPlant 0 \<lparr>x3 = 0, y3 = 0.5, z3 = 0\<rparr> 1 0.01 0) [newSoilCell \<lparr>x2 = 0, y2 = 0\<rparr> 0 0 0 0] 1 1 [0] ([], 0, 0, 0)
   = Inr ([(0, 1)], 1, 1 / 2, 1 / 2)"
  by (simp add: sampleLoop_Cons overlapFractionWithCell_def overlapAreaXZ_def clampf_def newPlant_def newSoilCell_def Let_def)

section \<open>A footprint that grows keeps its overlap\<close>

lemma sampleLoop_idx_range:
  "sampleLoop p soil gs cs idxs acc = Inr acc' \<Longrightarrow>
   \<forall>i \<in> set idxs. 0 \<le> i \<and> i < int (length soil)"
proof (induction idxs arbitrary: acc)
  case Nil
  then show ?case by simp
next
  case (Cons idx rest)
  obtain ov tot ns ws where acc: "acc = (ov, tot, ns, ws)" by (cases acc) auto
  from Cons.prems have rng: "0 \<le> idx" "idx < int (length soil)"
    unfolding acc by (auto simp: sampleLoop_Cons split: if_splits)
  from Cons.prems obtain acc1 where "sampleLoop p soil gs cs rest acc1 = Inr acc'"
    unfolding acc by (auto simp: sampleLoop_Cons split: if_splits)
  from Cons.IH [OF this] rng show ?case by simp
qed

lemma clampf_mono: "v \<le> w \<Longrightarrow> clampf v a b \<le> clampf w a b"
  unfolding clampf_def by (intro max.mono min.mono) simp_all

lemma sampleLoop_total_pos:
  "sampleLoop p soil gs cs idxs (ov, tot, ns, ws) = Inr (ov', tot', ns', ws') \<Longrightarrow>
   tot \<le> tot' \<and>
   (tot < tot' \<longleftrightarrow> (\<exists>idx \<in> set idxs. 0 < overlapFractionWithCell p (soil ! nat idx) gs cs))"
proof (induction idxs arbitrary: ov tot ns ws)
  case Nil
  then show ?case by simp
next
  case (Cons idx rest)
  let ?f = "overlapFractionWithCell p (soil ! nat idx) gs cs"
  show ?case
  proof (cases "0 < ?f")
    case True
    with Cons.prems obtain ov1 ns1 ws1 where
      "sampleLoop p soil gs cs rest (ov1, tot + ?f, ns1, ws1) = Inr (ov', tot', ns', ws')"
      by (auto simp: sampleLoop_Cons split: if_splits)
    from Cons.IH [OF this] have "tot + ?f \<le> tot'" by simp
    with True show ?thesis by auto
  next
    case False
    with Cons.prems have "sampleLoop p soil gs cs rest (ov, tot, ns, ws) = Inr (ov', tot', ns', ws')"
      by (simp add: sampleLoop_Cons split: if_splits)
    from Cons.IH [OF this] False show ?thesis by simp
  qed
qed

lemma sample_total_iff:
  assumes "sampleLoop p soil gs cs (getOccupiedSoilIndices p gs cs) ([], 0, 0, 0) = Inr (ov, tot, ns, ws)"
  shows "tot \<noteq> 0 \<longleftrightarrow> hasOverlap p soil gs cs"
  using sampleLoop_total_pos [OF assms] unfolding hasOverlap_def by auto

lemma overlapAreaXZ_mono:
  assumes "ah \<le> ah'"
  shows "overlapAreaXZ ax az ah bx bz bh \<le> overlapAreaXZ ax az ah' bx bz bh"
proof -
  let ?ix = "\<lambda>h. max 0 (min (ax + h) (bx + bh) - max (ax - h) (bx - bh))"
  let ?iz = "\<lambda>h. max 0 (min (az + h) (bz + bh) - max (az - h) (bz - bh))"
  have m: "max 0 (min (a + ah) b - max (a - ah) c) \<le> max 0 (min (a + ah') b - max (a - ah') c)"
    for a b c :: real
    using assms by (intro max.mono diff_mono min.mono) simp_all
  have x: "?ix ah \<le> ?ix ah'" and z: "?iz ah \<le> ?iz ah'" by (rule m)+
  have x0: "0 \<le> ?ix ah'" and z0: "0 \<le> ?iz ah" by (rule max.cobounded1)+
  have "?ix ah * ?iz ah \<le> ?ix ah' * ?iz ah'"
    by (rule mult_mono [OF x z x0 z0])
  then show ?thesis unfolding overlapAreaXZ_def Let_def .
qed

lemma overlapFraction_mono:
  assumes "x3 (position q) = x3 (position p)" and "z3 (position q) = z3 (position p)"
    and "size' p \<le> size' q" and "cellPosition c' = cellPosition c"
  shows "overlapFractionWithCell p c gs cs \<le> overlapFractionWithCell q c' gs cs"
proof -
  let ?g = "real_of_int gs * 0.5"
  let ?o = "\<lambda>h. overlapAreaXZ (x3 (position p)) (z3 (position p)) h
              (x2 (cellPosition c) - ?g + cs * 0.5) (y2 (cellPosition c) - ?g + cs * 0.5) (cs * 0.5)"
  from assms(3) have "?o (size' p * 0.5) \<le> ?o (size' q * 0.5)"
    by (intro overlapAreaXZ_mono) simp
  then have "?o (size' p * 0.5) / (cs * cs) \<le> ?o (size' q * 0.5) / (cs * cs)"
    by (intro divide_right_mono) simp_all
  then show ?thesis
    unfolding overlapFractionWithCell_def Let_def assms(1,2,4) by (rule clampf_mono)
qed

lemma indices_mono:
  assumes "x3 (position q) = x3 (position p)" and "z3 (position q) = z3 (position p)"
    and "size' p \<le> size' q" and "0 < cs"
  shows "set (getOccupiedSoilIndices p gs cs) \<subseteq> set (getOccupiedSoilIndices q gs cs)"
proof
  fix idx assume "idx \<in> set (getOccupiedSoilIndices p gs cs)"
  then obtain x z where xz: "idx = z * gs + x"
        "\<lfloor>(x3 (position p) - size' p * 0.5 + real_of_int gs * 0.5) / cs\<rfloor> \<le> x"
        "x \<le> \<lfloor>(x3 (position p) + size' p * 0.5 + real_of_int gs * 0.5) / cs\<rfloor>"
        "\<lfloor>(z3 (position p) - size' p * 0.5 + real_of_int gs * 0.5) / cs\<rfloor> \<le> z"
        "z \<le> \<lfloor>(z3 (position p) + size' p * 0.5 + real_of_int gs * 0.5) / cs\<rfloor>"
        "0 \<le> x" "x < gs" "0 \<le> z" "z < gs"
    unfolding indices_set by blast
  have lo: "\<lfloor>(a - size' q * 0.5 + g) / cs\<rfloor> \<le> \<lfloor>(a - size' p * 0.5 + g) / cs\<rfloor>" for a g
    using assms(3,4) by (intro floor_mono divide_right_mono) simp_all
  have hi: "\<lfloor>(a + size' p * 0.5 + g) / cs\<rfloor> \<le> \<lfloor>(a + size' q * 0.5 + g) / cs\<rfloor>" for a g
    using assms(3,4) by (intro floor_mono divide_right_mono) simp_all
  from xz lo [of "x3 (position p)" "real_of_int gs * 0.5"] hi [of "x3 (position p)" "real_of_int gs * 0.5"]
    lo [of "z3 (position p)" "real_of_int gs * 0.5"] hi [of "z3 (position p)" "real_of_int gs * 0.5"]
  have "\<lfloor>(x3 (position q) - size' q * 0.5 + real_of_int gs * 0.5) / cs\<rfloor> \<le> x"
        "x \<le> \<lfloor>(x3 (position q) + size' q * 0.5 + real_of_int gs * 0.5) / cs\<rfloor>"
        "\<lfloor>(z3 (position q) - size' q * 0.5 + real_of_int gs * 0.5) / cs\<rfloor> \<le> z"
        "z \<le> \<lfloor>(z3 (position q) + size' q * 0.5 + real_of_int gs * 0.5) / cs\<rfloor>"
    unfolding assms(1,2) by linarith+
  with xz show "idx \<in> set (getOccupiedSoilIndices q gs cs)"
    unfolding indices_set by blast
qed

lemma hasOverlap_mono:
  assumes "hasOverlap p soil gs cs"
    and "x3 (position q) = x3 (position p)" and "z3 (position q) = z3 (position p)"
    and "size' p \<le> size' q" and "0 < cs"
    and "map cellPosition soil' = map cellPosition soil"
    and "\<forall>i \<in> set (getOccupiedSoilIndices p gs cs). 0 \<le> i \<and> i < int (length soil)"
  shows "hasOverlap q soil' gs cs"
proof -
  from assms(1) obtain idx where idx: "idx \<in> set (getOccupiedSoilIndices p gs cs)"
    and f: "0 < overlapFractionWithCell p (soil ! nat idx) gs cs"
    unfolding hasOverlap_def by blast
  from idx assms(7) have "nat idx < length soil" by auto
  then have "cellPosition (soil' ! nat idx) = cellPosition (soil ! nat idx)"
    using assms(6) by (metis length_map nth_map)
  from overlapFraction_mono [OF assms(2-4) this] f
  have "0 < overlapFractionWithCell q (soil' ! nat idx) gs cs" by (rule less_le_trans [rotated])
  moreover from idx indices_mono [OF assms(2-5)] have "idx \<in> set (getOccupiedSoilIndices q gs cs)"
    by blast
  ultimately show ?thesis unfolding hasOverlap_def by blast
qed

section \<open>Updates without light\<close>

lemma netEnergy_dark:
  assumes "plantInvariant p"
  shows "netEnergy p 0 tot ns ws \<le> - 0.2"
proof -
  from assms have "0 \<le> maintenancePerSize p * size' p" "0 \<le> age p / maxAge p * 0.2"
    by (simp_all add: plantInvariant_def)
  moreover from assms have "baseMaintenance p = 0.2" by (simp add: plantInvariant_def)
  ultimately show ?thesis by (simp add: netEnergy_def Let_def)
qed

lemma grow_starve_step:
  assumes "alive p" and "plantInvariant p" and "hasOverlap p soil gs cs" and "0 < cs"
    and "grow p soil gs cs 0 nu cu hs = Inr (p', soil', nu', cu')"
  shows "plantInvariant p' \<and> hasOverlap p' soil' gs cs
       \<and> health p' \<le> max 0 (health p - 0.0007)
       \<and> (0 < health p \<longrightarrow> health p' < health p)
       \<and> (alive p' \<longrightarrow> 0 < health p' \<and> health p' \<le> health p - 0.0007)
       \<and> (health p' \<le> 0 \<longrightarrow> \<not> alive p')"
  using assms(5)
proof (cases rule: grow_cases)
  case dead
  with assms(1) show ?thesis by simp
next
  case (off ov ns ws)
  from sample_total_iff [OF off(2)] assms(3) show ?thesis by simp
next
  case (full ov tot ns ws)
  let ?e = "netEnergy p 0 tot ns ws"
  note f = grow_full [OF full assms(5)]
  from netEnergy_dark [OF assms(2)] have e: "?e \<le> - 0.2" .
  from assms(2) have gr: "0 \<le> growthRate p" by (simp add: plantInvariant_def)
  from f have h: "health p' = clampf (health p + ?e * 0.001 - 0.0005) 0 1" by blast
  from e have v: "health p + ?e * 0.001 - 0.0005 \<le> health p - 0.0007" by simp
  from f growthDelta_nonneg [OF gr, of ?e] have sz: "size' p \<le> size' p'" "0.2 \<le> size' p'"
    by auto
  from f have geo: "x3 (position p') = x3 (position p)" "z3 (position p') = z3 (position p)"
    by auto
  from grow_length [OF assms(5)] have pos: "map cellPosition soil' = map cellPosition soil"
    by simp
  from hasOverlap_mono [OF assms(3) geo sz(1) assms(4) pos sampleLoop_idx_range [OF full(2)]]
  have ov: "hasOverlap p' soil' gs cs" .
  from f assms(2) sz h have inv: "plantInvariant p'"
    by (auto simp: plantInvariant_def clampf_def)
  from h v have h1: "health p' \<le> max 0 (health p - 0.0007)"
    by (auto simp: clampf_def)
  from h v have h2: "0 < health p \<longrightarrow> health p' < health p"
    by (auto simp: clampf_def)
  from f have al: "alive p' = (0 < health p' \<and> age p' < maxAge p')" by blast
  from h v al have h3: "alive p' \<longrightarrow> 0 < health p' \<and> health p' \<le> health p - 0.0007"
    by (auto simp: clampf_def)
  from al have h4: "health p' \<le> 0 \<longrightarrow> \<not> alive p'" by auto
  from inv ov h1 h2 h3 h4 show ?thesis by blast
qed

lemma growRepeat_dead:
  "\<not> alive p \<Longrightarrow> growRepeat n p soil gs cs lf nu cu hs = Inr (p, soil, nu, cu)"
  by (induction n) (simp_all add: grow_dead)

lemma growRepeat_defined:
  assumes "gs * gs \<le> int (length soil)"
  shows "\<exists>w. growRepeat n p soil gs cs lf nu cu hs = Inr w"
  using assms
proof (induction n arbitrary: p soil nu cu)
  case 0
  show ?case by simp
next
  case (Suc n)
  from grow_defined [OF Suc.prems] obtain w where "grow p soil gs cs lf nu cu hs = Inr w"
    by blast
  then obtain p1 s1 n1 c1 where g: "grow p soil gs cs lf nu cu hs = Inr (p1, s1, n1, c1)"
    by (cases w) auto
  from grow_length [OF g] Suc.prems have "gs * gs \<le> int (length s1)" by simp
  from Suc.IH [OF this] g show ?case by simp
qed

lemma growRepeat_starve:
  assumes "growRepeat n p soil gs cs 0 nu cu hs = Inr (p', soil', nu', cu')"
    and "alive p" and "plantInvariant p" and "hasOverlap p soil gs cs" and "0 < cs"
  shows "\<not> alive p' \<or>
         (plantInvariant p' \<and> hasOverlap p' soil' gs cs
          \<and> health p' \<le> health p - 0.0007 * real n \<and> (0 < n \<longrightarrow> 0 < health p'))"
  using assms
proof (induction n arbitrary: p soil nu cu)
  case 0
  then show ?case by simp
next
  case (Suc n)
  from Suc.prems(1) obtain p1 s1 n1 c1 where
    g: "grow p soil gs cs 0 nu cu hs = Inr (p1, s1, n1, c1)" and
    r: "growRepeat n p1 s1 gs cs 0 n1 c1 hs = Inr (p', soil', nu', cu')"
    by (auto split: sum.splits)
  note st = grow_starve_step [OF Suc.prems(2-5) g]
  show ?case
  proof (cases "alive p1")
    case False
    with r have "p' = p1" by (simp add: growRepeat_dead)
    with False show ?thesis by simp
  next
    case True
    with st have inv: "plantInvariant p1" and ov: "hasOverlap p1 s1 gs cs"
      and h: "0 < health p1" "health p1 \<le> health p - 0.0007" by blast+
    from Suc.IH [OF r True inv ov Suc.prems(5)]
    show ?thesis
    proof
      assume "\<not> alive p'"
      then show ?thesis by simp
    next
      assume a: "plantInvariant p' \<and> hasOverlap p' soil' gs cs
          \<and> health p' \<le> health p1 - 0.0007 * real n \<and> (0 < n \<longrightarrow> 0 < health p')"
      have "0 < health p'"
      proof (cases "n = 0")
        case True
        with r h show ?thesis by simp
      next
        case False
        with a show ?thesis by simp
      qed
      moreover have "health p' \<le> health p - 0.0007 * real (Suc n)"
      proof -
        from a have "health p' \<le> health p1 - 0.0007 * real n" by blast
        moreover have "0.0007 * real (Suc n) = 0.0007 * real n + (0.0007::real)"
          by (simp add: algebra_simps)
        ultimately show ?thesis using h(2) by linarith
      qed
      ultimately show ?thesis using a by simp
    qed
  qed
qed

lemma growRepeat_starved:
  assumes "growRepeat n p soil gs cs 0 nu cu hs = Inr (p', soil', nu', cu')"
    and "alive p" and "plantInvariant p" and "hasOverlap p soil gs cs" and "0 < cs"
    and "1429 \<le> n"
  shows "\<not> alive p'"
proof
  assume "alive p'"
  with growRepeat_starve [OF assms(1-5)] assms(6)
  have "0 < health p'" and "health p' \<le> health p - 0.0007 * real n" by auto
  moreover from assms(3) have "health p \<le> 1" by (simp add: plantInvariant_def)
  moreover from assms(6) have "0.0007 * real 1429 \<le> 0.0007 * real n" by simp
  ultimately show False by simp
qed

section \<open>Two plants stacked over a grid of one cell\<close>

text \<open>Two footprints with the same centre, the lower plant no wider than the upper one:
  the overlap is the footprint of the lower plant, so the lower plant gets the light
  factor 1/2 and the upper one the factor 1, in either order of the vector.\<close>

lemma overlapAreaXZ_concentric:
  assumes "0 \<le> h" and "h \<le> k"
  shows "overlapAreaXZ ax az h ax az k = (2 * h) * (2 * h)"
    and "overlapAreaXZ ax az k ax az h = (2 * h) * (2 * h)"
proof -
  have a: "min (ax + h) (ax + k) = ax + h" and b: "max (ax - h) (ax - k) = ax - h"
    and c: "min (az + h) (az + k) = az + h" and d: "max (az - h) (az - k) = az - h"
    using assms by simp_all
  have e: "max 0 (ax + h - (ax - h)) = 2 * h" and f: "max 0 (az + h - (az - h)) = 2 * h"
    using assms by simp_all
  show "overlapAreaXZ ax az h ax az k = (2 * h) * (2 * h)"
    unfolding overlapAreaXZ_def Let_def a b c d e f ..
  then show "overlapAreaXZ ax az k ax az h = (2 * h) * (2 * h)"
    by (simp only: overlapAreaXZ_commute [of ax az k ax az h])
qed

lemma calculateLight_stacked:
  assumes "id' u \<noteq> id' l"
    and "x3 (position u) = x3 (position l)" and "z3 (position u) = z3 (position l)"
    and "0 < size' l" and "size' l \<le> size' u" and "topY l < topY u"
  shows "calculateLight l [l, u] = 1 / 2" and "calculateLight u [l, u] = 1"
    and "calculateLight l [u, l] = 1 / 2" and "calculateLight u [u, l] = 1"
proof -
  have h: "0 \<le> size' l * 0.5" "size' l * 0.5 \<le> size' u * 0.5"
    using assms by simp_all
  have lu: "overlapAreaXZ (x3 (position l)) (z3 (position l)) (size' l * 0.5)
              (x3 (position u)) (z3 (position u)) (size' u * 0.5) = size' l * size' l"
    unfolding assms(2,3) overlapAreaXZ_concentric(1) [OF h] by simp
  have ul: "overlapAreaXZ (x3 (position u)) (z3 (position u)) (size' u * 0.5)
              (x3 (position l)) (z3 (position l)) (size' l * 0.5) = size' l * size' l"
    unfolding assms(2,3) overlapAreaXZ_concentric(2) [OF h] by simp
  have pos: "\<not> size' l * size' l \<le> 0"
    using assms(4) by (simp add: not_le)
  have nz: "size' l * size' l / (size' l * size' l) = 1"
    using assms(4) by simp
  have su: "0 < size' u"
    using assms(4,5) by simp
  have "lightLoop l [l, u] 1 = 1 * (1 - 1 * 0.5)"
    unfolding lightLoop.simps Let_def lu nz using assms(1,6) pos
    by (simp only: if_True if_False simp_thms)
  then show "calculateLight l [l, u] = 1 / 2"
    by (simp add: calculateLight_def clampf_def)
  have ne: "id' l \<noteq> id' u" and lower: "\<not> topY u < topY l"
    using assms(1,6) by simp_all
  have "lightLoop u [l, u] 1 = 1"
    unfolding lightLoop.simps Let_def ul using ne lower pos
    by (simp only: if_True if_False simp_thms)
  then show "calculateLight u [l, u] = 1"
    by (simp add: calculateLight_def clampf_def)
  have "lightLoop l [u, l] 1 = 1 * (1 - 1 * 0.5)"
    unfolding lightLoop.simps Let_def lu nz using assms(1,6) pos
    by (simp only: if_True if_False simp_thms)
  then show "calculateLight l [u, l] = 1 / 2"
    by (simp add: calculateLight_def clampf_def)
  have "lightLoop u [u, l] 1 = 1"
    unfolding lightLoop.simps Let_def ul using ne lower pos
    by (simp only: if_True if_False simp_thms)
  then show "calculateLight u [u, l] = 1"
    by (simp add: calculateLight_def clampf_def)
qed

text \<open>The calls of \<^verbatim>\<open>grow\<close> on a grid of one cell with \<open>HEIGHT_SCALE\<close> 3: a plant of
  size 1 at height 0.5 with light factor 1/2 in fresh soil, and then a plant of size 1 at
  height 0.7 in the soil the first call has left, with light factor 1 and with light
  factor 1/2.\<close>

lemma stacked_grow_lower:
  "grow (newPlant 0 \<lparr>x3 = 0, y3 = 0.5, z3 = 0\<rparr> 1 0.01 0)
        [newSoilCell \<lparr>x2 = 0, y2 = 0\<rparr> 0 0 0 0] 1 1 (1 / 2) Map.empty Map.empty 3
   = Inr ((newPlant 0 \<lparr>x3 = 0, y3 = 1.60003, z3 = 0\<rparr> 1.00002 0.01 0)
            \<lparr>health := 0.99929125, age := 0.01, lastNutrientIntake := 0.000009,
             lastAreaOccupied := 1\<rparr>,
          [\<lparr>cellPosition = \<lparr>x2 = 0, y2 = 0\<rparr>, water = 0.499999991, nitrogen = 0.499999991,
            phosphorus = 0.499999991, potassium = 0.499999991\<rparr>],
          [0 \<mapsto> [0 \<mapsto> 0.000009]], [0 \<mapsto> [(0, 1, 0.000009)]])"
proof -
  let ?a = "newPlant 0 \<lparr>x3 = 0, y3 = 0.5, z3 = 0\<rparr> 1 0.01 0"
  have s: "sampleLoop (?a\<lparr>lastNutrientIntake := 0, lastAreaOccupied := 0\<rparr>)
             [newSoilCell \<lparr>x2 = 0, y2 = 0\<rparr> 0 0 0 0] 1 1
             (getOccupiedSoilIndices (?a\<lparr>lastNutrientIntake := 0, lastAreaOccupied := 0\<rparr>) 1 1)
             ([], 0, 0, 0) = Inr ([(0, 1)], 1, 1 / 2, 1 / 2)"
    unfolding sampleLoop_stats indices_stats ex_indices by (rule ex_sample)
  have a: "alive ?a" by (simp add: newPlant_def)
  show ?thesis
    unfolding grow_def Let_def s using a
    by (simp add: netEnergy_def growthDelta_def depleteLoop_Cons newPlant_def newSoilCell_def
        clampf_def Let_def)
qed

lemma stacked_grow_upper:
  "grow (newPlant 1 \<lparr>x3 = 0, y3 = 0.7, z3 = 0\<rparr> 1 0.01 0)
        [\<lparr>cellPosition = \<lparr>x2 = 0, y2 = 0\<rparr>, water = 0.499999991, nitrogen = 0.499999991,
            phosphorus = 0.499999991, potassium = 0.499999991\<rparr>] 1 1 1
        [0 \<mapsto> [0 \<mapsto> 0.000009]] [0 \<mapsto> [(0, 1, 0.000009)]] 3
   = Inr ((newPlant 1 \<lparr>x3 = 0, y3 = 1.60003, z3 = 0\<rparr> 1.00002 0.01 0)
            \<lparr>health := 0.99929249999991000000081,
             age := 0.01, lastNutrientIntake := 0.000009, lastAreaOccupied := 1\<rparr>,
          [\<lparr>cellPosition = \<lparr>x2 = 0, y2 = 0\<rparr>, water = 0.499999982, nitrogen = 0.499999982,
            phosphorus = 0.499999982, potassium = 0.499999982\<rparr>],
          [0 \<mapsto> [0 \<mapsto> 0.000009], 1 \<mapsto> [0 \<mapsto> 0.000009]],
          [0 \<mapsto> [(0, 1, 0.000009), (1, 1, 0.000009)]])"
proof -
  let ?b = "newPlant 1 \<lparr>x3 = 0, y3 = 0.7, z3 = 0\<rparr> 1 0.01 0"
  let ?s = "[\<lparr>cellPosition = \<lparr>x2 = 0, y2 = 0\<rparr>, water = 0.499999991, nitrogen = 0.499999991,
            phosphorus = 0.499999991, potassium = 0.499999991\<rparr>]"
  have i: "getOccupiedSoilIndices ?b 1 1 = [0]"
    by (simp add: getOccupiedSoilIndices_def newPlant_def safeFloorToInt_def Let_def upto_rec1)
  have s: "sampleLoop (?b\<lparr>lastNutrientIntake := 0, lastAreaOccupied := 0\<rparr>) ?s 1 1
             (getOccupiedSoilIndices (?b\<lparr>lastNutrientIntake := 0, lastAreaOccupied := 0\<rparr>) 1 1)
             ([], 0, 0, 0) = Inr ([(0, 1)], 1, 0.499999991, 0.499999991)"
    unfolding sampleLoop_stats indices_stats i
    by (simp add: sampleLoop_Cons overlapFractionWithCell_def overlapAreaXZ_def clampf_def
        newPlant_def Let_def)
  have a: "alive ?b" by (simp add: newPlant_def)
  show ?thesis
    unfolding grow_def Let_def s using a
    by (simp add: netEnergy_def growthDelta_def depleteLoop_Cons newPlant_def clampf_def
        Let_def fun_upd_twist)
qed

lemma stacked_grow_upper_half:
  "grow (newPlant 1 \<lparr>x3 = 0, y3 = 0.7, z3 = 0\<rparr> 1 0.01 0)
        [\<lparr>cellPosition = \<lparr>x2 = 0, y2 = 0\<rparr>, water = 0.499999991, nitrogen = 0.499999991,
            phosphorus = 0.499999991, potassium = 0.499999991\<rparr>] 1 1 (1 / 2)
        [0 \<mapsto> [0 \<mapsto> 0.000009]] [0 \<mapsto> [(0, 1, 0.000009)]] 3
   = Inr ((newPlant 1 \<lparr>x3 = 0, y3 = 1.60003, z3 = 0\<rparr> 1.00002 0.01 0)
            \<lparr>health := 0.999291249999955000000405,
             age := 0.01, lastNutrientIntake := 0.000009, lastAreaOccupied := 1\<rparr>,
          [\<lparr>cellPosition = \<lparr>x2 = 0, y2 = 0\<rparr>, water = 0.499999982, nitrogen = 0.499999982,
            phosphorus = 0.499999982, potassium = 0.499999982\<rparr>],
          [0 \<mapsto> [0 \<mapsto> 0.000009], 1 \<mapsto> [0 \<mapsto> 0.000009]],
          [0 \<mapsto> [(0, 1, 0.000009), (1, 1, 0.000009)]])"
proof -
  let ?b = "newPlant 1 \<lparr>x3 = 0, y3 = 0.7, z3 = 0\<rparr> 1 0.01 0"
  let ?s = "[\<lparr>cellPosition = \<lparr>x2 = 0, y2 = 0\<rparr>, water = 0.499999991, nitrogen = 0.499999991,
            phosphorus = 0.499999991, potassium = 0.499999991\<rparr>]"
  have i: "getOccupiedSoilIndices ?b 1 1 = [0]"
    by (simp add: getOccupiedSoilIndices_def newPlant_def safeFloorToInt_def Let_def upto_rec1)
  have s: "sampleLoop (?b\<lparr>lastNutrientIntake := 0, lastAreaOccupied := 0\<rparr>) ?s 1 1
             (getOccupiedSoilIndices (?b\<lparr>lastNutrientIntake := 0, lastAreaOccupied := 0\<rparr>) 1 1)
             ([], 0, 0, 0) = Inr ([(0, 1)], 1, 0.499999991, 0.499999991)"
    unfolding sampleLoop_stats indices_stats i
    by (simp add: sampleLoop_Cons overlapFractionWithCell_def overlapAreaXZ_def clampf_def
        newPlant_def Let_def)
  have a: "alive ?b" by (simp add: newPlant_def)
  show ?thesis
    unfolding grow_def Let_def s using a
    by (simp add: netEnergy_def growthDelta_def depleteLoop_Cons newPlant_def clampf_def
        Let_def fun_upd_twist)
qed

text \<open>The loop over the plants of a frame, cut in two.\<close>

lemma growLoop_append:
  "growLoop gs cs hs lfs (xs @ ys) st =
     (case growLoop gs cs hs lfs xs st of Inl e \<Rightarrow> Inl e
      | Inr st' \<Rightarrow> growLoop gs cs hs lfs ys st')"
proof (induction xs arbitrary: st)
  case Nil
  show ?case by simp
next
  case (Cons j rest)
  obtain ps soil nu cu where st: "st = (ps, soil, nu, cu)" by (cases st) auto
  show ?case unfolding st by (simp add: Cons.IH split: sum.splits)
qed

section \<open>The claims\<close>

subsection \<open>C1: light factors come from the snapshot\<close>

text \<open>
  C1. The vector of light factors depends on the plants' ids, positions and sizes only
  (two vectors that agree on these have the same light factors, whatever health, age or
  other state the plants carry), and a frame computes it from the plants as they are
  when the frame starts, before any call of \<^verbatim>\<open>grow\<close>. The frame loop is taken over
  any list of distinct indices (the program's own order is \<open>0, 1, 2, ...\<close>). Growing no
  plant leaves the plants and the soil as they are. Growing the plants of \<open>order\<close> and
  then the plant at a further index \<open>i\<close> is: grow the plants of \<open>order\<close>, then call
  \<^verbatim>\<open>grow\<close> on the plant that started the frame at \<open>i\<close>, in the soil and with the usage
  maps the earlier calls have left, with the light factor \<open>calculateLight\<close> gives that
  plant on the starting vector \<open>plants\<close> -- not on the vector \<open>grown\<close> the earlier calls
  have changed -- and store the result at \<open>i\<close>. So whatever the order, every plant is
  grown with its entry of the one vector of light factors computed at the start.
\<close>

theorem light_snapshot_order_independent:
  "(map id' qs = map id' ps \<and> map position qs = map position ps \<and> map size' qs = map size' ps
      \<longrightarrow> lightFactors qs = lightFactors ps)
   \<and> frameInOrder [] gs cs hs plants soil = Inr (plants, soil, Map.empty, Map.empty)
   \<and> (distinct (order @ [i])
      \<longrightarrow> frameInOrder (order @ [i]) gs cs hs plants soil =
            (case frameInOrder order gs cs hs plants soil of
               Inl e \<Rightarrow> Inl e
             | Inr (grown, soil1, nu1, cu1) \<Rightarrow>
                 if length plants \<le> i then Inl OutOfRange
                 else case grow (plants ! i) soil1 gs cs (calculateLight (plants ! i) plants)
                             nu1 cu1 hs of
                        Inl e \<Rightarrow> Inl e
                      | Inr (p', soil2, nu2, cu2) \<Rightarrow> Inr (grown[i := p'], soil2, nu2, cu2)))
   \<and> frame gs cs hs plants soil = frameInOrder [0..<length plants] gs cs hs plants soil"
proof (intro conjI impI)
  assume "map id' qs = map id' ps \<and> map position qs = map position ps \<and> map size' qs = map size' ps"
  then show "lightFactors qs = lightFactors ps" using lightFactors_geometry by blast
next
  show "frameInOrder [] gs cs hs plants soil = Inr (plants, soil, Map.empty, Map.empty)"
    by (simp add: frameInOrder_def)
next
  show "frame gs cs hs plants soil = frameInOrder [0..<length plants] gs cs hs plants soil"
    by (rule frame_def)
next
  assume d: "distinct (order @ [i])"
  then have d': "distinct order" and fresh: "i \<notin> set order" by simp_all
  let ?lfs = "lightFactors plants"
  let ?st0 = "(plants, soil, Map.empty, Map.empty)"
  show "frameInOrder (order @ [i]) gs cs hs plants soil =
            (case frameInOrder order gs cs hs plants soil of
               Inl e \<Rightarrow> Inl e
             | Inr (grown, soil1, nu1, cu1) \<Rightarrow>
                 if length plants \<le> i then Inl OutOfRange
                 else case grow (plants ! i) soil1 gs cs (calculateLight (plants ! i) plants)
                             nu1 cu1 hs of
                        Inl e \<Rightarrow> Inl e
                      | Inr (p', soil2, nu2, cu2) \<Rightarrow> Inr (grown[i := p'], soil2, nu2, cu2))"
  proof (cases "growLoop gs cs hs ?lfs order ?st0")
    case (Inl e)
    then show ?thesis by (simp add: frameInOrder_def growLoop_append)
  next
    case (Inr st)
    obtain grown soil1 nu1 cu1 where st: "st = (grown, soil1, nu1, cu1)" by (cases st) auto
    from growLoop_plants [OF Inr [unfolded st] d'] fresh
    have len: "length grown = length plants" and same: "grown ! i = plants ! i" by blast+
    have last: "growLoop gs cs hs ?lfs [i] (grown, soil1, nu1, cu1) =
        (if length plants \<le> i then Inl OutOfRange
         else case grow (plants ! i) soil1 gs cs (calculateLight (plants ! i) plants) nu1 cu1 hs of
                Inl e \<Rightarrow> Inl e
              | Inr (p', soil2, nu2, cu2) \<Rightarrow> Inr (grown[i := p'], soil2, nu2, cu2))"
    proof (cases "length plants \<le> i")
      case True
      with len show ?thesis by simp
    next
      case False
      then have lt: "i < length plants" by simp
      from lt len have "\<not> (length grown \<le> i \<or> length ?lfs \<le> i)"
        by (simp add: lightFactors_def)
      with False show ?thesis
        by (simp add: same lightFactors_nth [OF lt] split: sum.splits)
    qed
    show ?thesis
      unfolding frameInOrder_def growLoop_append Inr st using last by simp
  qed
qed

text \<open>Two plants over the one cell of a 1 x 1 grid, the second one taller, grown in the
  program's order 0, 1. At the start of the frame the light factors are 1/2 and 1. The
  first call of \<^verbatim>\<open>grow\<close> raises the first plant above the second: on the vector it
  leaves, the light factors would be 1 and 1/2. The second plant is grown with light
  factor 1, its value at the start; with 1/2 the call would give another plant (health
  0.999291249999955... instead of 0.99929249999991...). Changing health and age of a
  plant changes no light factor.\<close>

theorem light_snapshot_order_independent_witness:
  "\<exists>grown soil1 nu1 cu1 p' soil2 nu2 cu2.
     frameInOrder [0] 1 1 3
       [newPlant 0 \<lparr>x3 = 0, y3 = 0.5, z3 = 0\<rparr> 1 0.01 0,
        newPlant 1 \<lparr>x3 = 0, y3 = 0.7, z3 = 0\<rparr> 1 0.01 0]
       [newSoilCell \<lparr>x2 = 0, y2 = 0\<rparr> 0 0 0 0] = Inr (grown, soil1, nu1, cu1)
     \<and> lightFactors [newPlant 0 \<lparr>x3 = 0, y3 = 0.5, z3 = 0\<rparr> 1 0.01 0,
                      newPlant 1 \<lparr>x3 = 0, y3 = 0.7, z3 = 0\<rparr> 1 0.01 0] = [1 / 2, 1]
     \<and> lightFactors grown = [1, 1 / 2]
     \<and> grow (newPlant 1 \<lparr>x3 = 0, y3 = 0.7, z3 = 0\<rparr> 1 0.01 0) soil1 1 1 1 nu1 cu1 3
           = Inr (p', soil2, nu2, cu2)
     \<and> frameInOrder [0, 1] 1 1 3
       [newPlant 0 \<lparr>x3 = 0, y3 = 0.5, z3 = 0\<rparr> 1 0.01 0,
        newPlant 1 \<lparr>x3 = 0, y3 = 0.7, z3 = 0\<rparr> 1 0.01 0]
       [newSoilCell \<lparr>x2 = 0, y2 = 0\<rparr> 0 0 0 0] = Inr (grown[1 := p'], soil2, nu2, cu2)
     \<and> health p' = 0.99929249999991000000081
     \<and> grow (newPlant 1 \<lparr>x3 = 0, y3 = 0.7, z3 = 0\<rparr> 1 0.01 0) soil1 1 1 (1 / 2) nu1 cu1 3
           \<noteq> Inr (p', soil2, nu2, cu2)
     \<and> lightFactors [(newPlant 0 \<lparr>x3 = 0, y3 = 0.5, z3 = 0\<rparr> 1 0.01 0)\<lparr>health := 0.3, age := 7\<rparr>,
                      newPlant 1 \<lparr>x3 = 0, y3 = 0.7, z3 = 0\<rparr> 1 0.01 0] = [1 / 2, 1]"
proof -
  let ?a = "newPlant 0 \<lparr>x3 = 0, y3 = 0.5, z3 = 0\<rparr> 1 0.01 0"
  let ?b = "newPlant 1 \<lparr>x3 = 0, y3 = 0.7, z3 = 0\<rparr> 1 0.01 0"
  let ?soil = "[newSoilCell \<lparr>x2 = 0, y2 = 0\<rparr> 0 0 0 0]"
  let ?a1 = "(newPlant 0 \<lparr>x3 = 0, y3 = 1.60003, z3 = 0\<rparr> 1.00002 0.01 0)
            \<lparr>health := 0.99929125, age := 0.01, lastNutrientIntake := 0.000009,
             lastAreaOccupied := 1\<rparr>"
  let ?soil1 = "[\<lparr>cellPosition = \<lparr>x2 = 0, y2 = 0\<rparr>, water = 0.499999991, nitrogen = 0.499999991,
            phosphorus = 0.499999991, potassium = 0.499999991\<rparr>]"
  let ?nu1 = "[0 \<mapsto> [0 \<mapsto> 0.000009]] :: nutrientUsedMap"
  let ?cu1 = "[0 \<mapsto> [(0, 1, 0.000009)]] :: cellUsageMap"
  let ?b1 = "(newPlant 1 \<lparr>x3 = 0, y3 = 1.60003, z3 = 0\<rparr> 1.00002 0.01 0)
            \<lparr>health := 0.99929249999991000000081,
             age := 0.01, lastNutrientIntake := 0.000009, lastAreaOccupied := 1\<rparr>"
  let ?soil2 = "[\<lparr>cellPosition = \<lparr>x2 = 0, y2 = 0\<rparr>, water = 0.499999982, nitrogen = 0.499999982,
            phosphorus = 0.499999982, potassium = 0.499999982\<rparr>]"
  let ?nu2 = "[0 \<mapsto> [0 \<mapsto> 0.000009], 1 \<mapsto> [0 \<mapsto> 0.000009]] :: nutrientUsedMap"
  let ?cu2 = "[0 \<mapsto> [(0, 1, 0.000009), (1, 1, 0.000009)]] :: cellUsageMap"
  have fa: "id' ?b \<noteq> id' ?a" "x3 (position ?b) = x3 (position ?a)"
    "z3 (position ?b) = z3 (position ?a)" "0 < size' ?a" "size' ?a \<le> size' ?b"
    "topY ?a < topY ?b"
    by (simp_all add: newPlant_def topY_def)
  have fb: "id' ?a1 \<noteq> id' ?b" "x3 (position ?a1) = x3 (position ?b)"
    "z3 (position ?a1) = z3 (position ?b)" "0 < size' ?b" "size' ?b \<le> size' ?a1"
    "topY ?b < topY ?a1"
    by (simp_all add: newPlant_def topY_def)
  have la: "calculateLight ?a [?a, ?b] = 1 / 2"
    by (rule calculateLight_stacked(1) [OF fa])
  have lb: "calculateLight ?b [?a, ?b] = 1"
    by (rule calculateLight_stacked(2) [OF fa])
  have snap: "lightFactors [?a, ?b] = [1 / 2, 1]"
    unfolding lightFactors_def list.map la lb ..
  have later: "lightFactors [?a1, ?b] = [1, 1 / 2]"
    unfolding lightFactors_def list.map calculateLight_stacked(3,4) [OF fb] ..
  note inst = light_snapshot_order_independent [where gs = 1 and cs = 1 and hs = 3
      and plants = "[?a, ?b]" and soil = ?soil
      and qs = "[?a\<lparr>health := 0.3, age := 7\<rparr>, ?b]" and ps = "[?a, ?b]"]
  have same: "map id' [?a\<lparr>health := 0.3, age := 7\<rparr>, ?b] = map id' [?a, ?b]
      \<and> map position [?a\<lparr>health := 0.3, age := 7\<rparr>, ?b] = map position [?a, ?b]
      \<and> map size' [?a\<lparr>health := 0.3, age := 7\<rparr>, ?b] = map size' [?a, ?b]"
    by simp
  have "lightFactors [?a\<lparr>health := 0.3, age := 7\<rparr>, ?b] = lightFactors [?a, ?b]"
    by (rule inst [THEN conjunct1, THEN mp, OF same])
  then have pure: "lightFactors [?a\<lparr>health := 0.3, age := 7\<rparr>, ?b] = [1 / 2, 1]"
    unfolding snap .
  have empty: "frameInOrder [] 1 1 3 [?a, ?b] ?soil = Inr ([?a, ?b], ?soil, Map.empty, Map.empty)"
    by (rule inst [THEN conjunct2, THEN conjunct1])
  note step = inst [THEN conjunct2, THEN conjunct2, THEN conjunct1, THEN mp]
  have h0: "([] :: nat list) @ [0] = [0]" "[?a, ?b] ! 0 = ?a" "(length [?a, ?b] \<le> 0) = False"
    "[?a, ?b][0 := ?a1] = [?a1, ?b]"
    by simp_all
  have h1: "[0 :: nat] @ [1] = [0, 1]" "[?a, ?b] ! 1 = ?b" "(length [?a, ?b] \<le> 1) = False"
    by simp_all
  have d0: "distinct ([] @ [0::nat])" and d1: "distinct ([0] @ [1::nat])" by simp_all
  have "frameInOrder ([] @ [0]) 1 1 3 [?a, ?b] ?soil =
            (case frameInOrder [] 1 1 3 [?a, ?b] ?soil of
               Inl e \<Rightarrow> Inl e
             | Inr (grown, soil1, nu1, cu1) \<Rightarrow>
                 if length [?a, ?b] \<le> 0 then Inl OutOfRange
                 else case grow ([?a, ?b] ! 0) soil1 1 1 (calculateLight ([?a, ?b] ! 0) [?a, ?b])
                             nu1 cu1 3 of
                        Inl e \<Rightarrow> Inl e
                      | Inr (p', soil2, nu2, cu2) \<Rightarrow> Inr (grown[0 := p'], soil2, nu2, cu2))"
    by (rule step [OF d0])
  then have first: "frameInOrder [0] 1 1 3 [?a, ?b] ?soil = Inr ([?a1, ?b], ?soil1, ?nu1, ?cu1)"
    unfolding empty by (simp only: h0 la stacked_grow_lower sum.case prod.case if_False)
  have "frameInOrder ([0] @ [1]) 1 1 3 [?a, ?b] ?soil =
            (case frameInOrder [0] 1 1 3 [?a, ?b] ?soil of
               Inl e \<Rightarrow> Inl e
             | Inr (grown, soil1, nu1, cu1) \<Rightarrow>
                 if length [?a, ?b] \<le> 1 then Inl OutOfRange
                 else case grow ([?a, ?b] ! 1) soil1 1 1 (calculateLight ([?a, ?b] ! 1) [?a, ?b])
                             nu1 cu1 3 of
                        Inl e \<Rightarrow> Inl e
                      | Inr (p', soil2, nu2, cu2) \<Rightarrow> Inr (grown[1 := p'], soil2, nu2, cu2))"
    by (rule step [OF d1])
  then have second: "frameInOrder [0, 1] 1 1 3 [?a, ?b] ?soil
      = Inr ([?a1, ?b][1 := ?b1], ?soil2, ?nu2, ?cu2)"
    unfolding first by (simp only: h1 lb stacked_grow_upper sum.case prod.case if_False)
  have hb: "health ?b1 = 0.99929249999991000000081" by simp
  have "health ((newPlant 1 \<lparr>x3 = 0, y3 = 1.60003, z3 = 0\<rparr> 1.00002 0.01 0)
            \<lparr>health := 0.999291249999955000000405,
             age := 0.01, lastNutrientIntake := 0.000009, lastAreaOccupied := 1\<rparr>) \<noteq> health ?b1"
    by simp
  then have "(newPlant 1 \<lparr>x3 = 0, y3 = 1.60003, z3 = 0\<rparr> 1.00002 0.01 0)
            \<lparr>health := 0.999291249999955000000405,
             age := 0.01, lastNutrientIntake := 0.000009, lastAreaOccupied := 1\<rparr> \<noteq> ?b1"
    by (rule contrapos_nn) (rule arg_cong)
  then have differ: "grow ?b ?soil1 1 1 (1 / 2) ?nu1 ?cu1 3 \<noteq> Inr (?b1, ?soil2, ?nu2, ?cu2)"
    unfolding stacked_grow_upper_half by (simp only: sum.inject prod.inject simp_thms)
  show ?thesis
    apply (rule exI [of _ "[?a1, ?b]"], rule exI [of _ ?soil1], rule exI [of _ ?nu1],
        rule exI [of _ ?cu1], rule exI [of _ ?b1], rule exI [of _ ?soil2], rule exI [of _ ?nu2],
        rule exI [of _ ?cu2])
    apply (intro conjI)
           apply (rule first)
          apply (rule snap)
         apply (rule later)
        apply (rule stacked_grow_upper)
       apply (rule second)
      apply (rule hb)
     apply (rule differ)
    apply (rule pure)
    done
qed

subsection \<open>C2: the \<open>alive\<close> flag after an update\<close>

text \<open>
  C2 says that after every call of \<^verbatim>\<open>grow\<close> the flag \<open>alive\<close> equals
  \<open>health > 0 \<and> age < maxAge\<close>. The full update recomputes the flag in line 181, after
  health and age (lemma \<open>grow_full\<close>); the early return of line 140 adds 0.01 to \<open>age\<close>
  and leaves the flag as it was. Here a live plant off the grid has age 199.995 and
  \<open>maxAge\<close> 200: the call returns it with age 200.005 and \<open>alive\<close> still true. The same
  plant taken as the constructor makes it (age 0) and updated 20000 times has age 200
  and is still alive.
\<close>

theorem alive_flag_stale_after_zero_overlap:
  "grow ((newPlant 0 \<lparr>x3 = 100, y3 = 0.5, z3 = 100\<rparr> 1 0.01 0)\<lparr>age := 199.995\<rparr>)
        [newSoilCell \<lparr>x2 = 0, y2 = 0\<rparr> 0 0 0 0] 1 1 1 Map.empty Map.empty 3
     = Inr ((newPlant 0 \<lparr>x3 = 100, y3 = 0.5, z3 = 100\<rparr> 1 0.01 0)\<lparr>age := 200.005\<rparr>,
            [newSoilCell \<lparr>x2 = 0, y2 = 0\<rparr> 0 0 0 0], Map.empty, Map.empty)
   \<and> growRepeat 20000 (newPlant 0 \<lparr>x3 = 100, y3 = 0.5, z3 = 100\<rparr> 1 0.01 0)
        [newSoilCell \<lparr>x2 = 0, y2 = 0\<rparr> 0 0 0 0] 1 1 1 Map.empty Map.empty 3
     = Inr ((newPlant 0 \<lparr>x3 = 100, y3 = 0.5, z3 = 100\<rparr> 1 0.01 0)\<lparr>age := 200\<rparr>,
            [newSoilCell \<lparr>x2 = 0, y2 = 0\<rparr> 0 0 0 0], Map.empty, Map.empty)
   \<and> alive ((newPlant 0 \<lparr>x3 = 100, y3 = 0.5, z3 = 100\<rparr> 1 0.01 0)\<lparr>age := 200.005\<rparr>)
   \<and> alive ((newPlant 0 \<lparr>x3 = 100, y3 = 0.5, z3 = 100\<rparr> 1 0.01 0)\<lparr>age := 200\<rparr>)
   \<and> maxAge (newPlant 0 \<lparr>x3 = 100, y3 = 0.5, z3 = 100\<rparr> 1 0.01 0) = 200"
proof -
  let ?n = "newPlant 0 \<lparr>x3 = 100, y3 = 0.5, z3 = 100\<rparr> 1 0.01 0"
  let ?p = "?n\<lparr>age := 199.995\<rparr>"
  have i: "getOccupiedSoilIndices ?n 1 1 = []"
    by (simp add: getOccupiedSoilIndices_def newPlant_def safeFloorToInt_def Let_def upto_rec1)
  have a: "alive ?p" "alive ?n" "lastNutrientIntake ?n = 0" "lastAreaOccupied ?n = 0"
    by (simp_all add: newPlant_def)
  have s: "sampleLoop ?p soil 1 1 (getOccupiedSoilIndices ?p 1 1) ([], 0, 0, 0) = Inr ([], 0, 0, 0)"
    for soil
    unfolding indices_age i by simp
  have one: "grow ?p [newSoilCell \<lparr>x2 = 0, y2 = 0\<rparr> 0 0 0 0] 1 1 1 Map.empty Map.empty 3
     = Inr (?n\<lparr>age := 200.005\<rparr>, [newSoilCell \<lparr>x2 = 0, y2 = 0\<rparr> 0 0 0 0], Map.empty, Map.empty)"
    unfolding grow_zero_overlap [OF a(1) s] by (simp add: newPlant_def)
  have "age ?n + 0.01 * real 20000 = 200" by (simp add: newPlant_def)
  with growRepeat_off_grid [OF a(2) i a(3,4), of 20000 "[newSoilCell \<lparr>x2 = 0, y2 = 0\<rparr> 0 0 0 0]"
      1 Map.empty Map.empty 3]
  have many: "growRepeat 20000 ?n [newSoilCell \<lparr>x2 = 0, y2 = 0\<rparr> 0 0 0 0] 1 1 1 Map.empty Map.empty 3
     = Inr (?n\<lparr>age := 200\<rparr>, [newSoilCell \<lparr>x2 = 0, y2 = 0\<rparr> 0 0 0 0], Map.empty, Map.empty)"
    by simp
  have "alive (?n\<lparr>age := 200.005\<rparr>)" "alive (?n\<lparr>age := 200\<rparr>)" "maxAge ?n = 200"
    by (simp_all add: newPlant_def)
  with one many show ?thesis by blast
qed

subsection \<open>C3: soil resources never go below zero\<close>

text \<open>
  C3. A new soil cell has no negative resource. If no resource of any cell is negative,
  then none is after a call of \<^verbatim>\<open>grow\<close>, and none is after any number of frames:
  every write of lines 161--164 is a \<open>max\<close> with 0. On a soil vector that covers the
  grid the frames all return.
\<close>

theorem soil_never_negative:
  "cellNonNegative (newSoilCell pos r1 r2 r3 r4)
   \<and> (soilNonNegative soil \<and> grow p soil gs cs lf nu cu hs = Inr (p', soil', nu', cu')
        \<longrightarrow> soilNonNegative soil')
   \<and> (soilNonNegative soil \<and> runFrames n gs cs hs plants soil = Inr (plants', soil'')
        \<longrightarrow> soilNonNegative soil'')
   \<and> (soilNonNegative soil \<and> gs * gs \<le> int (length soil)
        \<longrightarrow> (\<exists>ps s. runFrames n gs cs hs plants soil = Inr (ps, s) \<and> soilNonNegative s))"
proof (intro conjI impI)
  show "cellNonNegative (newSoilCell pos r1 r2 r3 r4)" by (rule newSoilCell_nonneg)
next
  assume h: "soilNonNegative soil \<and> gs * gs \<le> int (length soil)"
  then have "\<exists>r. runFrames n gs cs hs plants soil = Inr r" using runFrames_defined by blast
  then obtain r where "runFrames n gs cs hs plants soil = Inr r" ..
  then obtain ps s where run: "runFrames n gs cs hs plants soil = Inr (ps, s)" by (cases r) auto
  with h have "soilNonNegative s" using runFrames_soil_nonneg by blast
  with run show "\<exists>ps s. runFrames n gs cs hs plants soil = Inr (ps, s) \<and> soilNonNegative s"
    by blast
next
  assume "soilNonNegative soil \<and> grow p soil gs cs lf nu cu hs = Inr (p', soil', nu', cu')"
  then show "soilNonNegative soil'" using grow_soil_nonneg by blast
next
  assume "soilNonNegative soil \<and> runFrames n gs cs hs plants soil = Inr (plants', soil'')"
  then show "soilNonNegative soil''" using runFrames_soil_nonneg by blast
qed

theorem soil_never_negative_witness:
  "soilNonNegative [newSoilCell \<lparr>x2 = 0, y2 = 0\<rparr> 0 0 0 0]
   \<and> (\<exists>p' soil' nu' cu' plants' soil''.
        grow (newPlant 0 \<lparr>x3 = 0, y3 = 0.5, z3 = 0\<rparr> 1 0.01 0)
             [newSoilCell \<lparr>x2 = 0, y2 = 0\<rparr> 0 0 0 0] 1 1 1 Map.empty Map.empty 3
          = Inr (p', soil', nu', cu')
        \<and> soilNonNegative soil'
        \<and> runFrames 4 1 1 3 [newPlant 0 \<lparr>x3 = 0, y3 = 0.5, z3 = 0\<rparr> 1 0.01 0]
             [newSoilCell \<lparr>x2 = 0, y2 = 0\<rparr> 0 0 0 0] = Inr (plants', soil'')
        \<and> soilNonNegative soil'')"
proof -
  let ?p = "newPlant 0 \<lparr>x3 = 0, y3 = 0.5, z3 = 0\<rparr> 1 0.01 0"
  let ?soil = "[newSoilCell \<lparr>x2 = 0, y2 = 0\<rparr> 0 0 0 0]"
  have "\<exists>w. grow ?p ?soil 1 1 1 Map.empty Map.empty 3 = Inr w"
    by (rule grow_defined) simp
  then obtain w where "grow ?p ?soil 1 1 1 Map.empty Map.empty 3 = Inr w" ..
  then obtain p' soil' nu' cu' where
    g: "grow ?p ?soil 1 1 1 Map.empty Map.empty 3 = Inr (p', soil', nu', cu')"
    by (cases w) auto
  have "\<exists>r. runFrames 4 1 1 3 [?p] ?soil = Inr r"
    by (rule runFrames_defined) simp
  then obtain r where "runFrames 4 1 1 3 [?p] ?soil = Inr r" ..
  then obtain plants' soil'' where run: "runFrames 4 1 1 3 [?p] ?soil = Inr (plants', soil'')"
    by (cases r) auto
  have nn: "soilNonNegative ?soil"
    by (simp add: soilNonNegative_def cellNonNegative_def newSoilCell_def)
  note inst = soil_never_negative [where soil = ?soil and p = ?p and gs = 1 and cs = 1
      and lf = 1 and nu = Map.empty and cu = Map.empty and hs = 3 and p' = p' and soil' = soil'
      and nu' = nu' and cu' = cu' and n = 4 and plants = "[?p]" and plants' = plants'
      and soil'' = soil'']
  from inst nn g have 1: "soilNonNegative soil'" by blast
  from inst nn run have 2: "soilNonNegative soil''" by blast
  from nn g 1 run 2 show ?thesis by blast
qed

subsection \<open>C4: the take-fractions of a plant add up to 1\<close>

text \<open>
  C4. When the first loop of \<^verbatim>\<open>grow\<close> finds a total overlap other than zero, the
  take-fractions \<open>frac / totalOverlap\<close> of the cells it recorded add up to 1, and the
  amounts the second loop takes (\<open>demand * takeFrac * adsorptionEfficiency\<close>, summed
  into \<open>lastNutrientIntake\<close>) add up to \<open>demand * adsorptionEfficiency\<close>, where
  \<open>demand = max 0 (delta * 0.5)\<close>. Over the reals the sums are exact.
\<close>

theorem take_fraction_partition:
  assumes "alive p"
    and "sampleLoop p soil gs cs (getOccupiedSoilIndices p gs cs) ([], 0, 0, 0) = Inr (ov, tot, ns, ws)"
    and "tot \<noteq> 0"
    and "grow p soil gs cs lf nu cu hs = Inr (p', soil', nu', cu')"
  shows "(\<Sum>(idx, f) \<leftarrow> ov. f / tot) = 1
     \<and> lastNutrientIntake p'
         = (\<Sum>(idx, f) \<leftarrow> ov. max 0 (growthDelta p (netEnergy p lf tot ns ws) * 0.5) * (f / tot)
                                  * adsorptionEfficiency p)
     \<and> lastNutrientIntake p'
         = max 0 (growthDelta p (netEnergy p lf tot ns ws) * 0.5) * adsorptionEfficiency p"
proof -
  let ?demand = "max 0 (growthDelta p (netEnergy p lf tot ns ws) * 0.5)"
  from sampleLoop_total [OF assms(2)] have "tot = sum_list (map snd ov)" by simp
  from take_fractions_sum [OF this assms(3)] have one: "(\<Sum>(idx, f) \<leftarrow> ov. f / tot) = 1" .
  from grow_full [OF assms] obtain intake area where
    d: "depleteLoop (id' p) ?demand tot (adsorptionEfficiency p) ov (soil, nu, cu, 0, 0)
          = Inr (soil', nu', cu', intake, area)" and
    l: "lastNutrientIntake p' = intake"
    by blast
  from depleteLoop_sums [OF d] l
  have sum: "lastNutrientIntake p' = (\<Sum>(idx, f) \<leftarrow> ov. ?demand * (f / tot) * adsorptionEfficiency p)"
    by simp
  also have "\<dots> = ?demand * adsorptionEfficiency p * (\<Sum>(idx, f) \<leftarrow> ov. f / tot)"
    by (rule amounts_sum)
  finally have "lastNutrientIntake p' = ?demand * adsorptionEfficiency p" using one by simp
  with one sum show ?thesis by simp
qed

theorem take_fraction_partition_witness:
  "\<exists>p' soil' nu' cu'.
     grow (newPlant 0 \<lparr>x3 = 0, y3 = 0.5, z3 = 0\<rparr> 1 0.01 0)
          [newSoilCell \<lparr>x2 = 0, y2 = 0\<rparr> 0 0 0 0] 1 1 1 Map.empty Map.empty 3
       = Inr (p', soil', nu', cu')
     \<and> (\<Sum>(idx, f) \<leftarrow> [(0::int, 1::real)]. f / 1) = 1
     \<and> lastNutrientIntake p' = 0.00001 * 0.9"
proof -
  let ?p = "newPlant 0 \<lparr>x3 = 0, y3 = 0.5, z3 = 0\<rparr> 1 0.01 0"
  let ?soil = "[newSoilCell \<lparr>x2 = 0, y2 = 0\<rparr> 0 0 0 0]"
  have s: "sampleLoop ?p ?soil 1 1 (getOccupiedSoilIndices ?p 1 1) ([], 0, 0, 0)
             = Inr ([(0, 1)], 1, 1 / 2, 1 / 2)"
    unfolding ex_indices by (rule ex_sample)
  have "\<exists>w. grow ?p ?soil 1 1 1 Map.empty Map.empty 3 = Inr w"
    by (rule grow_defined) simp
  then obtain w where "grow ?p ?soil 1 1 1 Map.empty Map.empty 3 = Inr w" ..
  then obtain p' soil' nu' cu' where
    g: "grow ?p ?soil 1 1 1 Map.empty Map.empty 3 = Inr (p', soil', nu', cu')"
    by (cases w) auto
  have a: "alive ?p" by (simp add: newPlant_def)
  have e: "netEnergy ?p 1 1 (1 / 2) (1 / 2) \<le> 0"
    by (simp add: netEnergy_def newPlant_def)
  then have d: "max 0 (growthDelta ?p (netEnergy ?p 1 1 (1 / 2) (1 / 2)) * 0.5) * adsorptionEfficiency ?p
      = 0.00001 * 0.9"
    by (simp add: growthDelta_def newPlant_def)
  from take_fraction_partition [OF a s _ g]
  have "(\<Sum>(idx, f) \<leftarrow> [(0::int, 1::real)]. f / 1) = 1
     \<and> lastNutrientIntake p' = max 0 (growthDelta ?p (netEnergy ?p 1 1 (1 / 2) (1 / 2)) * 0.5)
          * adsorptionEfficiency ?p"
    by simp
  with d g show ?thesis by (metis (no_types, lifting))
qed

subsection \<open>C5: the shading factor\<close>



subsection \<open>C6: a plant of size 1 centred on a cell\<close>

text \<open>
  C6, as amended. For a plant of footprint size 1.0 centred on the cell \<open>(cx, cz)\<close> of a
  grid with cell size 1.0, \<open>getOccupiedSoilIndices\<close> returns a conservative range: the
  index of that cell first, followed by the indices of its neighbours at \<open>cx + 1\<close> and
  \<open>cz + 1\<close> that lie on the grid. \<open>overlapFractionWithCell\<close> is 1.0 for that cell and 0
  for every other grid cell, so the first loop of \<^verbatim>\<open>grow\<close> records exactly that one
  cell, with fraction 1.
\<close>

theorem centered_plant_one_cell:
  assumes "0 \<le> cx" and "cx < gs" and "0 \<le> cz" and "cz < gs"
    and "x3 (position p) = real_of_int cx - real_of_int gs * 0.5 + 0.5"
    and "z3 (position p) = real_of_int cz - real_of_int gs * 0.5 + 0.5"
    and "size' p = 1"
  shows "getOccupiedSoilIndices p gs 1 =
           concat (map (\<lambda>x. map (\<lambda>z. z * gs + x) (filter (\<lambda>z. x < gs \<and> z < gs) [cz, cz + 1]))
                       [cx, cx + 1])
     \<and> (\<forall>c x z. cellPosition c = \<lparr>x2 = real_of_int x, y2 = real_of_int z\<rparr>
           \<longrightarrow> overlapFractionWithCell p c gs 1 = (if x = cx \<and> z = cz then 1 else 0))
     \<and> ((\<forall>x z. 0 \<le> x \<and> x < gs \<and> 0 \<le> z \<and> z < gs
            \<longrightarrow> z * gs + x < int (length soil)
              \<and> cellPosition (soil ! nat (z * gs + x)) = \<lparr>x2 = real_of_int x, y2 = real_of_int z\<rparr>)
         \<longrightarrow> sampleLoop p soil gs 1 (getOccupiedSoilIndices p gs 1) ([], 0, 0, 0)
               = Inr ([(cz * gs + cx, 1)], 1,
                      (nitrogen (soil ! nat (cz * gs + cx)) + phosphorus (soil ! nat (cz * gs + cx))
                       + potassium (soil ! nat (cz * gs + cx))) / 3,
                      water (soil ! nat (cz * gs + cx))))"
proof (intro conjI allI impI)
  show idx: "getOccupiedSoilIndices p gs 1 =
           concat (map (\<lambda>x. map (\<lambda>z. z * gs + x) (filter (\<lambda>z. x < gs \<and> z < gs) [cz, cz + 1]))
                       [cx, cx + 1])"
    unfolding centered_indices [OF assms(5-7)] using assms(1-4) by simp
  show "overlapFractionWithCell p c gs 1 = (if x = cx \<and> z = cz then 1 else 0)"
    if "cellPosition c = \<lparr>x2 = real_of_int x, y2 = real_of_int z\<rparr>" for c x z
    using centered_fraction [OF assms(5-7) that] .
  assume grid: "\<forall>x z. 0 \<le> x \<and> x < gs \<and> 0 \<le> z \<and> z < gs
            \<longrightarrow> z * gs + x < int (length soil)
              \<and> cellPosition (soil ! nat (z * gs + x)) = \<lparr>x2 = real_of_int x, y2 = real_of_int z\<rparr>"
  have cell: "\<not> (z * gs + x < 0 \<or> int (length soil) \<le> z * gs + x)
      \<and> overlapFractionWithCell p (soil ! nat (z * gs + x)) gs 1 = (if x = cx \<and> z = cz then 1 else 0)"
    if "0 \<le> x" "x < gs" "0 \<le> z" "z < gs" for x z
  proof -
    from that grid have "z * gs + x < int (length soil)"
      and pos: "cellPosition (soil ! nat (z * gs + x)) = \<lparr>x2 = real_of_int x, y2 = real_of_int z\<rparr>"
      by blast+
    moreover from cell_index_range [OF that] have "0 \<le> z * gs + x" by simp
    ultimately show ?thesis using centered_fraction [OF assms(5-7) pos] by simp
  qed
  note c00 = cell [OF assms(1-4)]
  show "sampleLoop p soil gs 1 (getOccupiedSoilIndices p gs 1) ([], 0, 0, 0)
               = Inr ([(cz * gs + cx, 1)], 1,
                      (nitrogen (soil ! nat (cz * gs + cx)) + phosphorus (soil ! nat (cz * gs + cx))
                       + potassium (soil ! nat (cz * gs + cx))) / 3,
                      water (soil ! nat (cz * gs + cx)))"
  proof (cases "cx + 1 < gs")
    case xin: True
    show ?thesis
    proof (cases "cz + 1 < gs")
      case zin: True
      from assms(1-4) xin zin have
        c01: "\<not> ((cz + 1) * gs + cx < 0 \<or> int (length soil) \<le> (cz + 1) * gs + cx)
          \<and> overlapFractionWithCell p (soil ! nat ((cz + 1) * gs + cx)) gs 1 = 0"
        and c10: "\<not> (cz * gs + (cx + 1) < 0 \<or> int (length soil) \<le> cz * gs + (cx + 1))
          \<and> overlapFractionWithCell p (soil ! nat (cz * gs + (cx + 1))) gs 1 = 0"
        and c11: "\<not> ((cz + 1) * gs + (cx + 1) < 0 \<or> int (length soil) \<le> (cz + 1) * gs + (cx + 1))
          \<and> overlapFractionWithCell p (soil ! nat ((cz + 1) * gs + (cx + 1))) gs 1 = 0"
        using cell [of cx "cz + 1"] cell [of "cx + 1" cz] cell [of "cx + 1" "cz + 1"] by simp_all
      from xin zin assms(1-4) have "getOccupiedSoilIndices p gs 1 =
          [cz * gs + cx, (cz + 1) * gs + cx, cz * gs + (cx + 1), (cz + 1) * gs + (cx + 1)]"
        unfolding idx by simp
      then show ?thesis using c00 c01 c10 c11 by (simp add: sampleLoop_Cons)
    next
      case zout: False
      from assms(1-4) xin have
        c10: "\<not> (cz * gs + (cx + 1) < 0 \<or> int (length soil) \<le> cz * gs + (cx + 1))
          \<and> overlapFractionWithCell p (soil ! nat (cz * gs + (cx + 1))) gs 1 = 0"
        using cell [of "cx + 1" cz] by simp
      from xin zout assms(1-4) have "getOccupiedSoilIndices p gs 1 = [cz * gs + cx, cz * gs + (cx + 1)]"
        unfolding idx by simp
      then show ?thesis using c00 c10 by (simp add: sampleLoop_Cons)
    qed
  next
    case xout: False
    show ?thesis
    proof (cases "cz + 1 < gs")
      case zin: True
      from assms(1-4) zin have
        c01: "\<not> ((cz + 1) * gs + cx < 0 \<or> int (length soil) \<le> (cz + 1) * gs + cx)
          \<and> overlapFractionWithCell p (soil ! nat ((cz + 1) * gs + cx)) gs 1 = 0"
        using cell [of cx "cz + 1"] by simp
      from xout zin assms(1-4) have "getOccupiedSoilIndices p gs 1 = [cz * gs + cx, (cz + 1) * gs + cx]"
        unfolding idx by simp
      then show ?thesis using c00 c01 by (simp add: sampleLoop_Cons)
    next
      case zout: False
      from xout zout assms(1-4) have "getOccupiedSoilIndices p gs 1 = [cz * gs + cx]"
        unfolding idx by simp
      then show ?thesis using c00 by (simp add: sampleLoop_Cons)
    qed
  qed
qed


theorem centered_plant_one_cell_witness:
  "getOccupiedSoilIndices (newPlant 0 \<lparr>x3 = - 0.5, y3 = 0.5, z3 = - 0.5\<rparr> 1 0.01 0) 2 1 = [0, 2, 1, 3]
   \<and> overlapFractionWithCell (newPlant 0 \<lparr>x3 = - 0.5, y3 = 0.5, z3 = - 0.5\<rparr> 1 0.01 0)
        (newSoilCell \<lparr>x2 = 0, y2 = 0\<rparr> 0 0 0 0) 2 1 = 1
   \<and> overlapFractionWithCell (newPlant 0 \<lparr>x3 = - 0.5, y3 = 0.5, z3 = - 0.5\<rparr> 1 0.01 0)
        (newSoilCell \<lparr>x2 = 1, y2 = 0\<rparr> 0 0 0 0) 2 1 = 0
   \<and> sampleLoop (newPlant 0 \<lparr>x3 = - 0.5, y3 = 0.5, z3 = - 0.5\<rparr> 1 0.01 0)
        [newSoilCell \<lparr>x2 = 0, y2 = 0\<rparr> 0 0 0 0, newSoilCell \<lparr>x2 = 1, y2 = 0\<rparr> 0 0 0 0,
         newSoilCell \<lparr>x2 = 0, y2 = 1\<rparr> 0 0 0 0, newSoilCell \<lparr>x2 = 1, y2 = 1\<rparr> 0 0 0 0] 2 1
        [0, 2, 1, 3] ([], 0, 0, 0)
       = Inr ([(0, 1)], 1, 1 / 2, 1 / 2)"
proof -
  let ?p = "newPlant 0 \<lparr>x3 = - 0.5, y3 = 0.5, z3 = - 0.5\<rparr> 1 0.01 0"
  let ?soil = "[newSoilCell \<lparr>x2 = 0, y2 = 0\<rparr> 0 0 0 0, newSoilCell \<lparr>x2 = 1, y2 = 0\<rparr> 0 0 0 0,
         newSoilCell \<lparr>x2 = 0, y2 = 1\<rparr> 0 0 0 0, newSoilCell \<lparr>x2 = 1, y2 = 1\<rparr> 0 0 0 0]"
  have geo: "x3 (position ?p) = real_of_int 0 - real_of_int 2 * 0.5 + 0.5"
    "z3 (position ?p) = real_of_int 0 - real_of_int 2 * 0.5 + 0.5" "size' ?p = 1"
    by (simp_all add: newPlant_def)
  have rng: "(0::int) \<le> 0" "(0::int) < 2" by simp_all
  note inst = centered_plant_one_cell [OF rng rng geo, where soil = ?soil]
  have grid: "\<forall>x z. 0 \<le> x \<and> x < 2 \<and> 0 \<le> z \<and> z < 2
            \<longrightarrow> z * 2 + x < int (length ?soil)
              \<and> cellPosition (?soil ! nat (z * 2 + x)) = \<lparr>x2 = real_of_int x, y2 = real_of_int z\<rparr>"
  proof (intro allI impI)
    fix x z :: int
    assume "0 \<le> x \<and> x < 2 \<and> 0 \<le> z \<and> z < 2"
    then have "(x = 0 \<or> x = 1) \<and> (z = 0 \<or> z = 1)" by arith
    then show "z * 2 + x < int (length ?soil)
              \<and> cellPosition (?soil ! nat (z * 2 + x)) = \<lparr>x2 = real_of_int x, y2 = real_of_int z\<rparr>"
      by (auto simp: newSoilCell_def)
  qed
  from inst have i: "getOccupiedSoilIndices ?p 2 1 = [0, 2, 1, 3]" by simp
  from inst have "cellPosition (newSoilCell \<lparr>x2 = 0, y2 = 0\<rparr> 0 0 0 0) = \<lparr>x2 = real_of_int 0, y2 = real_of_int 0\<rparr>
      \<longrightarrow> overlapFractionWithCell ?p (newSoilCell \<lparr>x2 = 0, y2 = 0\<rparr> 0 0 0 0) 2 1 = (if (0::int) = 0 \<and> (0::int) = 0 then 1 else 0)"
    by blast
  then have f0: "overlapFractionWithCell ?p (newSoilCell \<lparr>x2 = 0, y2 = 0\<rparr> 0 0 0 0) 2 1 = 1"
    by (simp add: newSoilCell_def)
  from inst have "cellPosition (newSoilCell \<lparr>x2 = 1, y2 = 0\<rparr> 0 0 0 0) = \<lparr>x2 = real_of_int 1, y2 = real_of_int 0\<rparr>
      \<longrightarrow> overlapFractionWithCell ?p (newSoilCell \<lparr>x2 = 1, y2 = 0\<rparr> 0 0 0 0) 2 1 = (if (1::int) = 0 \<and> (0::int) = 0 then 1 else 0)"
    by blast
  then have f1: "overlapFractionWithCell ?p (newSoilCell \<lparr>x2 = 1, y2 = 0\<rparr> 0 0 0 0) 2 1 = 0"
    by (simp add: newSoilCell_def)
  from inst grid have "sampleLoop ?p ?soil 2 1 (getOccupiedSoilIndices ?p 2 1) ([], 0, 0, 0)
       = Inr ([(0 * 2 + 0, 1)], 1,
              (nitrogen (?soil ! nat (0 * 2 + 0)) + phosphorus (?soil ! nat (0 * 2 + 0))
                + potassium (?soil ! nat (0 * 2 + 0))) / 3,
              water (?soil ! nat (0 * 2 + 0)))"
    by blast
  then have "sampleLoop ?p ?soil 2 1 [0, 2, 1, 3] ([], 0, 0, 0) = Inr ([(0, 1)], 1, 1 / 2, 1 / 2)"
    unfolding i by (simp add: newSoilCell_def)
  with i f0 f1 show ?thesis by blast
qed

text \<open>The claim as first stated (the list is exactly the one index) fails on the
  program's own 40 x 40 grid for the plant centred on cell (20, 20), whose index is 820.\<close>

theorem occupied_indices_not_one_cell_counterexample:
  "overlapFractionWithCell (newPlant 0 \<lparr>x3 = 0.5, y3 = 0.5, z3 = 0.5\<rparr> 1 0.01 0)
        (newSoilCell \<lparr>x2 = 20, y2 = 20\<rparr> 0 0 0 0) 40 1 = 1
   \<and> getOccupiedSoilIndices (newPlant 0 \<lparr>x3 = 0.5, y3 = 0.5, z3 = 0.5\<rparr> 1 0.01 0) 40 1
       = [820, 860, 821, 861]
   \<and> getOccupiedSoilIndices (newPlant 0 \<lparr>x3 = 0.5, y3 = 0.5, z3 = 0.5\<rparr> 1 0.01 0) 40 1
       \<noteq> [20 * 40 + 20]"
proof -
  have "getOccupiedSoilIndices (newPlant 0 \<lparr>x3 = 0.5, y3 = 0.5, z3 = 0.5\<rparr> 1 0.01 0) 40 1
       = [820, 860, 821, 861]"
    by (simp add: getOccupiedSoilIndices_def newPlant_def safeFloorToInt_def Let_def)
  moreover have "overlapFractionWithCell (newPlant 0 \<lparr>x3 = 0.5, y3 = 0.5, z3 = 0.5\<rparr> 1 0.01 0)
        (newSoilCell \<lparr>x2 = 20, y2 = 20\<rparr> 0 0 0 0) 40 1 = 1"
    by (simp add: overlapFractionWithCell_def overlapAreaXZ_def clampf_def newPlant_def
        newSoilCell_def Let_def)
  ultimately show ?thesis by simp
qed

subsection \<open>C7: an update with no overlap\<close>

text \<open>
  C7, as amended. For a live plant whose total overlap is zero (in particular when it
  occupies no cell of the grid), \<^verbatim>\<open>grow\<close> adds 0.01 to \<open>age\<close>, sets the two per-frame
  statistics \<open>lastNutrientIntake\<close> and \<open>lastAreaOccupied\<close> to 0 (lines 123--124), and
  leaves the soil, both usage maps and the plant's size, health, position, colour, id and
  fixed parameters as they were.
\<close>

theorem zero_overlap_only_ages:
  assumes "alive p"
    and "getOccupiedSoilIndices p gs cs = [] \<or>
         sampleLoop p soil gs cs (getOccupiedSoilIndices p gs cs) ([], 0, 0, 0) = Inr (ov, 0, ns, ws)"
  shows "\<exists>p'. grow p soil gs cs lf nu cu hs = Inr (p', soil, nu, cu)
     \<and> age p' = age p + 0.01
     \<and> lastNutrientIntake p' = 0 \<and> lastAreaOccupied p' = 0
     \<and> size' p' = size' p \<and> health p' = health p \<and> position p' = position p
     \<and> color p' = color p \<and> id' p' = id' p
     \<and> growthRate p' = growthRate p \<and> maxAge p' = maxAge p
     \<and> photosyntheticEfficiency p' = photosyntheticEfficiency p
     \<and> baseMaintenance p' = baseMaintenance p
     \<and> maintenancePerSize p' = maintenancePerSize p
     \<and> adsorptionEfficiency p' = adsorptionEfficiency p"
proof -
  from assms(2) obtain ov' ns' ws' where
    "sampleLoop p soil gs cs (getOccupiedSoilIndices p gs cs) ([], 0, 0, 0) = Inr (ov', 0, ns', ws')"
    by auto
  from grow_zero_overlap [OF assms(1) this, of lf nu cu hs] show ?thesis by simp
qed

text \<open>A plant off the grid whose \<open>lastNutrientIntake\<close> is 1 when the call starts.\<close>

theorem zero_overlap_only_ages_witness:
  "\<exists>p'. grow ((newPlant 0 \<lparr>x3 = 100, y3 = 0.5, z3 = 100\<rparr> 1 0.01 0)\<lparr>lastNutrientIntake := 1\<rparr>)
          [newSoilCell \<lparr>x2 = 0, y2 = 0\<rparr> 0 0 0 0] 1 1 1 Map.empty Map.empty 3
       = Inr (p', [newSoilCell \<lparr>x2 = 0, y2 = 0\<rparr> 0 0 0 0], Map.empty, Map.empty)
     \<and> age p' = 0.01 \<and> lastNutrientIntake p' = 0 \<and> lastAreaOccupied p' = 0
     \<and> size' p' = 1 \<and> health p' = 1 \<and> position p' = \<lparr>x3 = 100, y3 = 0.5, z3 = 100\<rparr>"
proof -
  let ?p = "(newPlant 0 \<lparr>x3 = 100, y3 = 0.5, z3 = 100\<rparr> 1 0.01 0)\<lparr>lastNutrientIntake := 1\<rparr>"
  let ?soil = "[newSoilCell \<lparr>x2 = 0, y2 = 0\<rparr> 0 0 0 0]"
  have a: "alive ?p" by (simp add: newPlant_def)
  have i: "getOccupiedSoilIndices ?p 1 1 = []"
    by (simp add: getOccupiedSoilIndices_def newPlant_def safeFloorToInt_def Let_def upto_rec1)
  from zero_overlap_only_ages [OF a disjI1 [OF i], of ?soil 1 Map.empty Map.empty 3]
  obtain p' where "grow ?p ?soil 1 1 1 Map.empty Map.empty 3 = Inr (p', ?soil, Map.empty, Map.empty)"
    and "age p' = age ?p + 0.01" and "lastNutrientIntake p' = 0" and "lastAreaOccupied p' = 0"
    and "size' p' = size' ?p" and "health p' = health ?p" and "position p' = position ?p"
    by blast
  moreover have "age ?p + 0.01 = 0.01" "size' ?p = 1" "health ?p = 1"
    "position ?p = \<lparr>x3 = 100, y3 = 0.5, z3 = 100\<rparr>"
    by (simp_all add: newPlant_def)
  ultimately show ?thesis by metis
qed

text \<open>The claim as first stated (nothing but \<open>age\<close> changes) fails for that plant: the
  call resets its \<open>lastNutrientIntake\<close>.\<close>

theorem zero_overlap_resets_stats_counterexample:
  "alive ((newPlant 0 \<lparr>x3 = 100, y3 = 0.5, z3 = 100\<rparr> 1 0.01 0)\<lparr>lastNutrientIntake := 1\<rparr>)
   \<and> getOccupiedSoilIndices
        ((newPlant 0 \<lparr>x3 = 100, y3 = 0.5, z3 = 100\<rparr> 1 0.01 0)\<lparr>lastNutrientIntake := 1\<rparr>) 1 1 = []
   \<and> grow ((newPlant 0 \<lparr>x3 = 100, y3 = 0.5, z3 = 100\<rparr> 1 0.01 0)\<lparr>lastNutrientIntake := 1\<rparr>)
        [newSoilCell \<lparr>x2 = 0, y2 = 0\<rparr> 0 0 0 0] 1 1 1 Map.empty Map.empty 3
     \<noteq> Inr ((newPlant 0 \<lparr>x3 = 100, y3 = 0.5, z3 = 100\<rparr> 1 0.01 0)
              \<lparr>lastNutrientIntake := 1, age := 0.01\<rparr>,
            [newSoilCell \<lparr>x2 = 0, y2 = 0\<rparr> 0 0 0 0], Map.empty, Map.empty)"
proof -
  let ?p = "(newPlant 0 \<lparr>x3 = 100, y3 = 0.5, z3 = 100\<rparr> 1 0.01 0)\<lparr>lastNutrientIntake := 1\<rparr>"
  have a: "alive ?p" by (simp add: newPlant_def)
  have i: "getOccupiedSoilIndices ?p 1 1 = []"
    by (simp add: getOccupiedSoilIndices_def newPlant_def safeFloorToInt_def Let_def upto_rec1)
  have s: "sampleLoop ?p soil 1 1 (getOccupiedSoilIndices ?p 1 1) ([], 0, 0, 0) = Inr ([], 0, 0, 0)"
    for soil
    unfolding i by simp
  have "lastNutrientIntake (?p\<lparr>lastNutrientIntake := 0, lastAreaOccupied := 0, age := age ?p + 0.01\<rparr>)
        \<noteq> lastNutrientIntake (?p\<lparr>age := 0.01\<rparr>)"
    by simp
  then have "?p\<lparr>lastNutrientIntake := 0, lastAreaOccupied := 0, age := age ?p + 0.01\<rparr> \<noteq> ?p\<lparr>age := 0.01\<rparr>"
    by metis
  with a i show ?thesis unfolding grow_zero_overlap [OF a s] by simp
qed

subsection \<open>C8: a dead plant is left alone\<close>

text \<open>
  C8. A call of \<^verbatim>\<open>grow\<close> on a plant whose \<open>alive\<close> flag is false changes nothing:
  it returns the plant, the soil and both usage maps as they were. So it stays in every
  later frame: after any number of frames the plant at that index is still the same
  record (position, size, health, age, colour and per-frame statistics included).
\<close>

theorem dead_plant_noop:
  "\<not> alive p \<Longrightarrow>
     grow p soil gs cs lf nu cu hs = Inr (p, soil, nu, cu)
     \<and> (\<forall>n plants soil0 i plants' soil'.
           i < length plants \<and> plants ! i = p
           \<and> runFrames n gs cs hs plants soil0 = Inr (plants', soil')
           \<longrightarrow> plants' ! i = p)"
  using grow_dead runFrames_dead by blast

theorem dead_plant_noop_witness:
  "grow ((newPlant 0 \<lparr>x3 = 0, y3 = 0.5, z3 = 0\<rparr> 1 0.01 0)\<lparr>alive := False\<rparr>)
        [newSoilCell \<lparr>x2 = 0, y2 = 0\<rparr> 0 0 0 0] 1 1 1 Map.empty Map.empty 3
     = Inr ((newPlant 0 \<lparr>x3 = 0, y3 = 0.5, z3 = 0\<rparr> 1 0.01 0)\<lparr>alive := False\<rparr>,
            [newSoilCell \<lparr>x2 = 0, y2 = 0\<rparr> 0 0 0 0], Map.empty, Map.empty)
   \<and> (\<exists>plants' soil'.
        runFrames 5 1 1 3 [(newPlant 0 \<lparr>x3 = 0, y3 = 0.5, z3 = 0\<rparr> 1 0.01 0)\<lparr>alive := False\<rparr>]
          [newSoilCell \<lparr>x2 = 0, y2 = 0\<rparr> 0 0 0 0] = Inr (plants', soil')
        \<and> plants' ! 0 = (newPlant 0 \<lparr>x3 = 0, y3 = 0.5, z3 = 0\<rparr> 1 0.01 0)\<lparr>alive := False\<rparr>)"
proof -
  let ?d = "(newPlant 0 \<lparr>x3 = 0, y3 = 0.5, z3 = 0\<rparr> 1 0.01 0)\<lparr>alive := False\<rparr>"
  let ?soil = "[newSoilCell \<lparr>x2 = 0, y2 = 0\<rparr> 0 0 0 0]"
  have dead: "\<not> alive ?d" by simp
  have "\<exists>r. runFrames 5 1 1 3 [?d] ?soil = Inr r"
    by (rule runFrames_defined) simp
  then obtain r where "runFrames 5 1 1 3 [?d] ?soil = Inr r" ..
  then obtain plants' soil' where run: "runFrames 5 1 1 3 [?d] ?soil = Inr (plants', soil')"
    by (cases r) auto
  note noop = dead_plant_noop [OF dead, of ?soil 1 1 1 Map.empty Map.empty 3]
  from noop have one: "grow ?d ?soil 1 1 1 Map.empty Map.empty 3 = Inr (?d, ?soil, Map.empty, Map.empty)"
    by (rule conjunct1)
  from noop have "0 < length [?d] \<and> [?d] ! 0 = ?d \<and> runFrames 5 1 1 3 [?d] ?soil = Inr (plants', soil')
      \<longrightarrow> plants' ! 0 = ?d"
    by blast
  with run have "plants' ! 0 = ?d" by simp
  with one run show ?thesis by blast
qed

subsection \<open>C9: a plant without light starves\<close>

text \<open>
  C9. Take a live plant as the constructor leaves it (\<open>baseMaintenance = 0.2\<close>, health at
  most 1, the other parameters not negative, \<open>maxAge > 0\<close>) whose total overlap is not zero,
  on a grid with cell size above 0, and update it again and again with light factor 0.
  Production is 0, so the net energy is negative. Every update of the plant while it is
  alive takes at least \<open>0.2 * 0.001 + 0.0005 = 0.0007\<close> from its health (down to the
  floor 0), so health strictly decreases while it is positive, and health 0 makes
  \<open>alive\<close> false. After 1429 updates, and after any larger number, the plant is not
  alive; on a soil vector that covers the grid the updates all return.
\<close>

theorem starvation_death:
  assumes "alive p" and "health p \<le> 1" and "baseMaintenance p = 0.2"
    and "0 \<le> maintenancePerSize p" and "0 \<le> size' p" and "0 \<le> growthRate p"
    and "0 \<le> age p" and "0 < maxAge p" and "0 < cs"
    and "sampleLoop p soil gs cs (getOccupiedSoilIndices p gs cs) ([], 0, 0, 0)
           = Inr (ov, tot, ns, ws)"
    and "tot \<noteq> 0"
  shows "netEnergy p 0 tot ns ws < 0
     \<and> (\<forall>n q s nu1 cu1 q' s' nu' cu'.
           growRepeat n p soil gs cs 0 nu cu hs = Inr (q, s, nu1, cu1) \<and> alive q
           \<and> grow q s gs cs 0 nu1 cu1 hs = Inr (q', s', nu', cu')
           \<longrightarrow> health q' \<le> max 0 (health q - 0.0007)
               \<and> (0 < health q \<longrightarrow> health q' < health q)
               \<and> (health q' \<le> 0 \<longrightarrow> \<not> alive q'))
     \<and> (\<forall>n q s nu1 cu1.
           1429 \<le> n \<and> growRepeat n p soil gs cs 0 nu cu hs = Inr (q, s, nu1, cu1)
           \<longrightarrow> \<not> alive q)
     \<and> (gs * gs \<le> int (length soil)
         \<longrightarrow> (\<exists>q s nu1 cu1. growRepeat 1429 p soil gs cs 0 nu cu hs = Inr (q, s, nu1, cu1)
                             \<and> \<not> alive q))"
proof -
  from assms(2-8) have inv: "plantInvariant p" by (simp add: plantInvariant_def)
  from sample_total_iff [OF assms(10)] assms(11) have ov: "hasOverlap p soil gs cs" by simp
  have dark: "netEnergy p 0 tot ns ws < 0"
    using netEnergy_dark [OF inv, of tot ns ws] by simp
  have step: "health q' \<le> max 0 (health q - 0.0007)
               \<and> (0 < health q \<longrightarrow> health q' < health q)
               \<and> (health q' \<le> 0 \<longrightarrow> \<not> alive q')"
    if "growRepeat n p soil gs cs 0 nu cu hs = Inr (q, s, nu1, cu1) \<and> alive q
           \<and> grow q s gs cs 0 nu1 cu1 hs = Inr (q', s', nu', cu')"
    for n q s nu1 cu1 q' s' nu' cu'
  proof -
    from that have r: "growRepeat n p soil gs cs 0 nu cu hs = Inr (q, s, nu1, cu1)"
      and a: "alive q" and g: "grow q s gs cs 0 nu1 cu1 hs = Inr (q', s', nu', cu')"
      by blast+
    from growRepeat_starve [OF r assms(1) inv ov assms(9)] a
    have "plantInvariant q" "hasOverlap q s gs cs" by blast+
    from grow_starve_step [OF a this assms(9) g] show ?thesis by blast
  qed
  have dead: "\<not> alive q"
    if "1429 \<le> n \<and> growRepeat n p soil gs cs 0 nu cu hs = Inr (q, s, nu1, cu1)"
    for n q s nu1 cu1
    using growRepeat_starved [OF _ assms(1) inv ov assms(9)] that by blast
  have total: "\<exists>q s nu1 cu1. growRepeat 1429 p soil gs cs 0 nu cu hs = Inr (q, s, nu1, cu1)
                             \<and> \<not> alive q"
    if len: "gs * gs \<le> int (length soil)"
  proof -
    from growRepeat_defined [OF len] obtain w where
      "growRepeat 1429 p soil gs cs 0 nu cu hs = Inr w" by blast
    then obtain q s nu1 cu1 where r: "growRepeat 1429 p soil gs cs 0 nu cu hs = Inr (q, s, nu1, cu1)"
      by (cases w) auto
    with dead [of 1429 q s nu1 cu1] show ?thesis by simp
  qed
  from dark step dead total show ?thesis by blast
qed

theorem starvation_death_witness:
  "\<exists>q s nu1 cu1.
     growRepeat 1429 (newPlant 0 \<lparr>x3 = 0, y3 = 0.5, z3 = 0\<rparr> 1 0.01 0)
       [newSoilCell \<lparr>x2 = 0, y2 = 0\<rparr> 0 0 0 0] 1 1 0 Map.empty Map.empty 3 = Inr (q, s, nu1, cu1)
     \<and> \<not> alive q"
proof -
  let ?p = "newPlant 0 \<lparr>x3 = 0, y3 = 0.5, z3 = 0\<rparr> 1 0.01 0"
  let ?soil = "[newSoilCell \<lparr>x2 = 0, y2 = 0\<rparr> 0 0 0 0]"
  have s: "sampleLoop ?p ?soil 1 1 (getOccupiedSoilIndices ?p 1 1) ([], 0, 0, 0)
             = Inr ([(0, 1)], 1, 1 / 2, 1 / 2)"
    unfolding ex_indices by (rule ex_sample)
  have a: "alive ?p" "health ?p \<le> 1" "baseMaintenance ?p = 0.2" "0 \<le> maintenancePerSize ?p"
    "0 \<le> size' ?p" "0 \<le> growthRate ?p" "0 \<le> age ?p" "0 < maxAge ?p"
    by (simp_all add: newPlant_def)
  have c: "(0::real) < 1" "(1::real) \<noteq> 0" by simp_all
  have len: "(1::int) * 1 \<le> int (length ?soil)" by simp
  from starvation_death [OF a c(1) s c(2), where nu = Map.empty and cu = Map.empty and hs = 3] len
  show ?thesis by blast
qed

subsection \<open>C10: a plant never shrinks\<close>

text \<open>
  C10. For a live plant with total overlap other than zero and \<open>growthRate > 0\<close> the
  growth \<open>delta\<close> is positive, the size after \<^verbatim>\<open>grow\<close> is greater than before, and
  when the size was at least 0.2 the floor of line 153 does not bind: the new size is
  \<open>size + delta\<close>. With \<open>growthRate \<ge> 0\<close> no call of \<^verbatim>\<open>grow\<close> on any path, and no
  number of frames, makes a plant smaller. The plants \<^verbatim>\<open>main\<close> creates have
  \<open>growthRate \<ge> 0.01\<close>.
\<close>

theorem size_never_shrinks:
  "(alive p \<and> 0 < growthRate p
      \<and> sampleLoop p soil gs cs (getOccupiedSoilIndices p gs cs) ([], 0, 0, 0) = Inr (ov, tot, ns, ws)
      \<and> tot \<noteq> 0
      \<and> grow p soil gs cs lf nu cu hs = Inr (p', soil', nu', cu')
      \<longrightarrow> 0 < growthDelta p (netEnergy p lf tot ns ws)
          \<and> size' p < size' p'
          \<and> (0.2 \<le> size' p \<longrightarrow> size' p' = size' p + growthDelta p (netEnergy p lf tot ns ws)))
   \<and> (0 \<le> growthRate p \<and> grow p soil gs cs lf nu cu hs = Inr (p', soil', nu', cu')
      \<longrightarrow> size' p \<le> size' p')
   \<and> ((\<forall>j < length plants. 0 \<le> growthRate (plants ! j)) \<and> i < length plants
      \<and> runFrames n gs cs hs plants soil0 = Inr (plants', soil0')
      \<longrightarrow> size' (plants ! i) \<le> size' (plants' ! i))
   \<and> 0.01 \<le> growthRate (mainPlant G k r1 r2 r3 r4)"
proof (intro conjI impI)
  assume h: "alive p \<and> 0 < growthRate p
      \<and> sampleLoop p soil gs cs (getOccupiedSoilIndices p gs cs) ([], 0, 0, 0) = Inr (ov, tot, ns, ws)
      \<and> tot \<noteq> 0
      \<and> grow p soil gs cs lf nu cu hs = Inr (p', soil', nu', cu')"
  let ?d = "growthDelta p (netEnergy p lf tot ns ws)"
  from h have pos: "0 < ?d" by (simp add: growthDelta_pos)
  from h grow_full [of p soil gs cs ov tot ns ws lf nu cu hs p' soil' nu' cu']
  have sz: "size' p' = max 0.2 (size' p + ?d)" by blast
  show "0 < ?d" by (rule pos)
  show "size' p < size' p'" using pos sz by simp
  show "size' p' = size' p + ?d" if "0.2 \<le> size' p" using that pos sz by simp
next
  assume "0 \<le> growthRate p \<and> grow p soil gs cs lf nu cu hs = Inr (p', soil', nu', cu')"
  then show "size' p \<le> size' p'" using grow_size_mono by blast
next
  assume "(\<forall>j < length plants. 0 \<le> growthRate (plants ! j)) \<and> i < length plants
      \<and> runFrames n gs cs hs plants soil0 = Inr (plants', soil0')"
  then show "size' (plants ! i) \<le> size' (plants' ! i)"
    using runFrames_size_mono [of n gs cs hs plants soil0 plants' soil0'] by blast
next
  have "0 \<le> real_of_int (r3 mod 10)" by simp
  then show "0.01 \<le> growthRate (mainPlant G k r1 r2 r3 r4)"
    by (simp add: mainPlant_def newPlant_def Let_def)
qed

theorem size_never_shrinks_witness:
  "\<exists>p' soil' nu' cu' plants' soil0'.
     grow (newPlant 0 \<lparr>x3 = 0, y3 = 0.5, z3 = 0\<rparr> 1 0.01 0)
          [newSoilCell \<lparr>x2 = 0, y2 = 0\<rparr> 0 0 0 0] 1 1 1 Map.empty Map.empty 3
       = Inr (p', soil', nu', cu')
     \<and> size' p' = 1 + 0.01 * 0.01 * 0.2
     \<and> runFrames 4 1 1 3 [newPlant 0 \<lparr>x3 = 0, y3 = 0.5, z3 = 0\<rparr> 1 0.01 0]
          [newSoilCell \<lparr>x2 = 0, y2 = 0\<rparr> 0 0 0 0] = Inr (plants', soil0')
     \<and> 1 \<le> size' (plants' ! 0)"
proof -
  let ?p = "newPlant 0 \<lparr>x3 = 0, y3 = 0.5, z3 = 0\<rparr> 1 0.01 0"
  let ?soil = "[newSoilCell \<lparr>x2 = 0, y2 = 0\<rparr> 0 0 0 0]"
  have s: "sampleLoop ?p ?soil 1 1 (getOccupiedSoilIndices ?p 1 1) ([], 0, 0, 0)
             = Inr ([(0, 1)], 1, 1 / 2, 1 / 2)"
    unfolding ex_indices by (rule ex_sample)
  have "\<exists>w. grow ?p ?soil 1 1 1 Map.empty Map.empty 3 = Inr w"
    by (rule grow_defined) simp
  then obtain w where "grow ?p ?soil 1 1 1 Map.empty Map.empty 3 = Inr w" ..
  then obtain p' soil' nu' cu' where
    g: "grow ?p ?soil 1 1 1 Map.empty Map.empty 3 = Inr (p', soil', nu', cu')"
    by (cases w) auto
  have "\<exists>r. runFrames 4 1 1 3 [?p] ?soil = Inr r"
    by (rule runFrames_defined) simp
  then obtain r where "runFrames 4 1 1 3 [?p] ?soil = Inr r" ..
  then obtain plants' soil0' where run: "runFrames 4 1 1 3 [?p] ?soil = Inr (plants', soil0')"
    by (cases r) auto
  have a: "alive ?p" "0 < growthRate ?p" "(0.2::real) \<le> size' ?p" "size' ?p = 1"
    "\<forall>j < length [?p]. 0 \<le> growthRate ([?p] ! j)"
    by (simp_all add: newPlant_def)
  have e: "netEnergy ?p 1 1 (1 / 2) (1 / 2) \<le> 0"
    by (simp add: netEnergy_def newPlant_def)
  then have d: "growthDelta ?p (netEnergy ?p 1 1 (1 / 2) (1 / 2)) = 0.01 * 0.01 * 0.2"
    by (simp add: growthDelta_def newPlant_def)
  note inst = size_never_shrinks [where p = ?p and soil = ?soil and gs = 1 and cs = 1
      and ov = "[(0, 1)]" and tot = 1 and ns = "1 / 2" and ws = "1 / 2" and lf = 1
      and nu = Map.empty and cu = Map.empty and hs = 3 and p' = p' and soil' = soil'
      and nu' = nu' and cu' = cu' and plants = "[?p]" and i = 0 and n = 4 and ?soil0.0 = ?soil
      and plants' = plants' and soil0' = soil0']
  have ne: "(1::real) \<noteq> 0" by simp
  from inst a s g ne have "size' p' = size' ?p + growthDelta ?p (netEnergy ?p 1 1 (1 / 2) (1 / 2))"
    by blast
  with a d have one: "size' p' = 1 + 0.01 * 0.01 * 0.2" by simp
  from inst a(5) run have "size' ([?p] ! 0) \<le> size' (plants' ! 0)" by simp
  with a have "1 \<le> size' (plants' ! 0)" by simp
  with g one run show ?thesis by blast
qed

end
